theory Spec2Isabelle
  imports Main "HOL-Library.Signed_Division" "HOL-Library.Word"
begin

unbundle bit_operations_syntax

section \<open>The host's values, memory and iterator protocol\<close>

text \<open>
  The printers of \<^verbatim>\<open>src/libcxx/v1/printers.py\<close> run inside a debugger: they receive a
  handle on a value of the inspected process and read its fields and the memory behind its pointers.
  The embedding keeps what the printers compute with and makes the rest explicit.

  \<^item> A pointer is an integer address counted in elements of its target type, so that the
    source's \<^verbatim>\<open>ptr + 1\<close> is \<open>p + 1\<close>.
  \<^item> Memory is a partial function from addresses to contents; \<open>None\<close> is a cell the
    debugger cannot read (unmapped or optimised out). A read of such a cell raises
    \<^verbatim>\<open>gdb.MemoryError\<close>.
  \<^item> The fields of the root value handed to a constructor are taken as read: every
    constructor's argument is a record of the integers found in those fields. Looking up a
    field or a type by name succeeds.
  \<^item> A list node, a tree node and a hash table entry are read as a whole: all of its
    fields can be read, or none.
  \<^item> The debugger computes with the integer types of the inspected program. Where the
    result depends on it, this is written out: the capacity of a vector of booleans is a
    product of two unsigned 64-bit values and wraps around at \<open>2 ^ 64\<close>, and the stored
    element count of a tree or a hash table, which the source compares with 0, is an
    unsigned 64-bit word. Elsewhere integers are mathematical integers. The debugger's
    division and remainder truncate towards zero (\<open>sdiv\<close>, \<open>smod\<close>); division by zero
    raises \<^verbatim>\<open>gdb.error\<close>.
  \<^item> \<^verbatim>\<open>dereference()\<close> gives a handle that is read only when it is used. An
    element that the source hands to the host without using it is the handle \<open>LazyAt a\<close>;
    \<open>SecondAt a\<close> is the handle on the mapped value of the map entry at \<open>a\<close>.
\<close>

datatype exn = MemoryError | GdbError

datatype gvalue = LazyAt int | SecondAt int | PyBool bool

type_synonym 'a memory = "int \<Rightarrow> 'a option"

definition fetch :: "'a memory \<Rightarrow> int \<Rightarrow> exn + 'a" where
  "fetch m a = (case m a of None \<Rightarrow> Inl MemoryError | Some v \<Rightarrow> Inr v)"

text \<open>The formats \<^verbatim>\<open>'%d'\<close> and \<^verbatim>\<open>'[%d]'\<close>.\<close>

fun string_of_nat :: "nat \<Rightarrow> string" where
  "string_of_nat n =
     (if n < 10 then [''0123456789'' ! n]
      else string_of_nat (n div 10) @ [''0123456789'' ! (n mod 10)])"

definition fmt_d :: "int \<Rightarrow> string" where
  "fmt_d i = (if i < 0 then ''-'' @ string_of_nat (nat (- i)) else string_of_nat (nat i))"

definition label :: "int \<Rightarrow> string" where
  "label i = ''['' @ fmt_d i @ '']''"

text \<open>
  One call of an iterator's \<^verbatim>\<open>__next__\<close> ends in one of three ways: it raises
  \<^verbatim>\<open>StopIteration\<close>, it raises another exception, or it returns an element and leaves
  the iterator in a new state. No caller in the source uses an iterator after it has
  raised, so the state a raising call leaves behind is not part of the result.
\<close>

datatype ('a, 's) step = StopIteration | Raise exn | Yield 'a 's

text \<open>
  \<^verbatim>\<open>list(iterator)\<close> calls \<^verbatim>\<open>__next__\<close> until it stops. Nothing bounds the number of
  calls, so the result is an option: \<open>None\<close> is a loop that never returns. An exception other
  than \<^verbatim>\<open>StopIteration\<close> leaves \<^verbatim>\<open>list\<close> as it is (\<open>Inl\<close>).
\<close>

definition cons_result :: "'a \<Rightarrow> exn + 'a list \<Rightarrow> exn + 'a list" where
  "cons_result x r = (case r of Inl e \<Rightarrow> Inl e | Inr xs \<Rightarrow> Inr (x # xs))"

partial_function (option) py_list ::
  "('s \<Rightarrow> ('a, 's) step option) \<Rightarrow> 's \<Rightarrow> (exn + 'a list) option" where
  "py_list nxt s =
     (case nxt s of
        None \<Rightarrow> None
      | Some StopIteration \<Rightarrow> Some (Inr [])
      | Some (Raise e) \<Rightarrow> Some (Inl e)
      | Some (Yield x s') \<Rightarrow> Option.bind (py_list nxt s') (\<lambda>r. Some (cons_result x r)))"

section \<open>StdStringPrinter\<close>

text \<open>
  The fields the constructor reads from a \<^verbatim>\<open>basic_string\<close>: the short representation's
  size field and the address of its inline buffer, the long representation's size and
  data pointer.
\<close>

record string_val =
  short_size :: int
  short_data :: int
  long_size :: int
  long_data :: int

record string_printer =
  sp_typename :: string
  sp_size :: int
  sp_ptr :: int
  sp_display_hint :: bool

text \<open>Lines 72 to 81: pointer and size.\<close>

definition string_select :: "string_val \<Rightarrow> int \<times> int" where
  "string_select v =
     (if short_size v AND 1 = 0 then (drop_bit 1 (short_size v), short_data v)
      else (long_size v, long_data v))"

text \<open>
  Lines 83 to 98: the audit. \<^verbatim>\<open>first_char\<close> is the cell at the pointer and
  \<^verbatim>\<open>last_char\<close> the cell \<^verbatim>\<open>self.size\<close> elements further; formatting them reads
  both. Any exception resets the pointer and the size.
\<close>

definition string_audit :: "char memory \<Rightarrow> int \<Rightarrow> int \<Rightarrow> exn + unit" where
  "string_audit m p sz =
     (case fetch m p of
        Inl e \<Rightarrow> Inl e
      | Inr first_char \<Rightarrow>
          (case fetch m (p + sz) of
             Inl e \<Rightarrow> Inl e
           | Inr last_char \<Rightarrow> Inr ()))"

definition StdStringPrinter_init :: "char memory \<Rightarrow> string \<Rightarrow> string_val \<Rightarrow> string_printer" where
  "StdStringPrinter_init m tn v =
     (let (sz, p) = string_select v in
      if sz \<ge> 0 then
        (case string_audit m p sz of
           Inr _ \<Rightarrow> \<lparr>sp_typename = tn, sp_size = sz, sp_ptr = p, sp_display_hint = True\<rparr>
         | Inl _ \<Rightarrow> \<lparr>sp_typename = tn, sp_size = - 1, sp_ptr = 0, sp_display_hint = False\<rparr>)
      else \<lparr>sp_typename = tn, sp_size = sz, sp_ptr = p, sp_display_hint = False\<rparr>)"

text \<open>\<^verbatim>\<open>self.ptr.string(length=self.size)\<close> reads that many characters from the pointer.\<close>

fun read_chars :: "char memory \<Rightarrow> int \<Rightarrow> nat \<Rightarrow> exn + string" where
  "read_chars m p 0 = Inr []"
| "read_chars m p (Suc n) =
     (case fetch m p of
        Inl e \<Rightarrow> Inl e
      | Inr c \<Rightarrow> (case read_chars m (p + 1) n of Inl e \<Rightarrow> Inl e | Inr cs \<Rightarrow> Inr (c # cs)))"

definition string_to_string :: "char memory \<Rightarrow> string_printer \<Rightarrow> string" where
  "string_to_string m sp =
     (if sp_size sp \<ge> 0 then
        (case read_chars m (sp_ptr sp) (nat (sp_size sp)) of
           Inr s \<Rightarrow> s
         | Inl _ \<Rightarrow> ''invalid'')
      else ''invalid'')"

section \<open>StdVectorPrinter\<close>

text \<open>
  A plain vector has the fields \<^verbatim>\<open>__begin_\<close>, \<^verbatim>\<open>__end_\<close> and
  \<^verbatim>\<open>__end_cap_.__first_\<close>. A vector of \<^verbatim>\<open>bool\<close> is recognised by its field
  \<^verbatim>\<open>__bits_per_word\<close> (\<open>None\<close> when the debugger reports it as optimised out) and has
  \<^verbatim>\<open>__begin_\<close>, \<^verbatim>\<open>__size_\<close> and \<^verbatim>\<open>__cap_alloc_.__first_\<close>. The printer of a plain vector
  has no attribute \<^verbatim>\<open>bits_per_word\<close>; its field \<open>vp_bits_per_word\<close> is 0 and is not used.
  The capacity of a vector of booleans is the product of \<^verbatim>\<open>__cap_alloc_.__first_\<close>, an
  unsigned 64-bit value, and the word width, computed by the debugger in that type.
\<close>

datatype vector_val =
    Vector (v_begin: int) (v_end: int) (v_end_cap: int)
  | VectorBool (v_begin: int) (v_size: int) (v_cap_alloc: int) (v_bits_per_word: "int option")

record vector_printer =
  vp_typename :: string
  vp_val :: vector_val
  vp_is_bool :: bool
  vp_bits_per_word :: int
  vp_size :: int
  vp_capacity :: int
  vp_children :: bool

record vector_iterator =
  vi_bitvec :: bool
  vi_item :: int
  vi_so :: nat
  vi_size :: int
  vi_bits_per_word :: int
  vi_finish :: int
  vi_count :: int

text \<open>
  \<^verbatim>\<open>_iterator.__next__\<close>, lines 362 to 383. The bit cursor reads the word under
  \<^verbatim>\<open>self.item\<close> when it masks it; the plain cursor hands out the handle unread.
\<close>

definition vector_next :: "int memory \<Rightarrow> vector_iterator \<Rightarrow> (string \<times> gvalue, vector_iterator) step" where
  "vector_next m it =
     (let count = vi_count it in
      if vi_bitvec it then
        (if count = vi_size it then StopIteration
         else
           (case fetch m (vi_item it) of
              Inl e \<Rightarrow> Raise e
            | Inr elt \<Rightarrow>
                (let obit = (elt AND push_bit (vi_so it) 1 \<noteq> 0);
                     so = vi_so it + 1
                 in if int so \<ge> vi_bits_per_word it
                    then Yield (label count, PyBool obit)
                           (it\<lparr>vi_item := vi_item it + 1, vi_so := 0, vi_count := count + 1\<rparr>)
                    else Yield (label count, PyBool obit)
                           (it\<lparr>vi_so := so, vi_count := count + 1\<rparr>))))
      else
        (if vi_item it = vi_finish it then StopIteration
         else Yield (label count, LazyAt (vi_item it))
                (it\<lparr>vi_item := vi_item it + 1, vi_count := count + 1\<rparr>)))"

text \<open>\<^verbatim>\<open>_children\<close>, lines 424 to 434: a new iterator from the fields of the value.\<close>

definition vector_children :: "vector_printer \<Rightarrow> vector_iterator" where
  "vector_children p =
     (case vp_val p of
        VectorBool b n c w \<Rightarrow>
          \<lparr>vi_bitvec = True, vi_item = b, vi_so = 0, vi_size = n,
           vi_bits_per_word = vp_bits_per_word p, vi_finish = 0, vi_count = 0\<rparr>
      | Vector b e c \<Rightarrow>
          \<lparr>vi_bitvec = False, vi_item = b, vi_so = 0, vi_size = 0,
           vi_bits_per_word = 0, vi_finish = e, vi_count = 0\<rparr>)"

text \<open>
  The audit of lines 410 to 422: the first and the last element (for bits: the first and
  the last word) are formatted, which reads them.
\<close>

definition vector_audit :: "int memory \<Rightarrow> vector_val \<Rightarrow> int \<Rightarrow> int \<Rightarrow> exn + unit" where
  "vector_audit m val bpw sz =
     (let front_ptr = v_begin val;
          back_ptr =
            (case val of
               VectorBool b n c w \<Rightarrow>
                 (if bpw = 0 then Inl GdbError else Inr (front_ptr + ((sz - 1) sdiv bpw)))
             | Vector b e c \<Rightarrow> Inr (e - 1))
      in case back_ptr of
           Inl e \<Rightarrow> Inl e
         | Inr bp \<Rightarrow>
             (case fetch m front_ptr of
                Inl e \<Rightarrow> Inl e
              | Inr front \<Rightarrow> (case fetch m bp of Inl e \<Rightarrow> Inl e | Inr back \<Rightarrow> Inr ())))"

definition StdVectorPrinter_init :: "int memory \<Rightarrow> string \<Rightarrow> vector_val \<Rightarrow> vector_printer" where
  "StdVectorPrinter_init m tn val =
     (let is_bool = (case val of VectorBool b n c w \<Rightarrow> True | Vector b e c \<Rightarrow> False);
          bpw = (case val of
                   VectorBool b n c w \<Rightarrow> (case w of None \<Rightarrow> 64 | Some k \<Rightarrow> k)
                 | Vector b e c \<Rightarrow> 0);
          sz0 = (case val of VectorBool b n c w \<Rightarrow> n | Vector b e c \<Rightarrow> e - b);
          cap = (case val of
                   VectorBool b n c w \<Rightarrow> (c * bpw) mod 2 ^ 64
                 | Vector b e c \<Rightarrow> c - b);
          sz1 = (if sz0 > cap then - 1 else sz0);
          p = \<lparr>vp_typename = tn, vp_val = val, vp_is_bool = is_bool, vp_bits_per_word = bpw,
               vp_size = sz1, vp_capacity = cap, vp_children = False\<rparr>
      in if sz1 > 0 then
           (case vector_audit m val bpw sz1 of
              Inr _ \<Rightarrow> p\<lparr>vp_children := True\<rparr>
            | Inl _ \<Rightarrow> p\<lparr>vp_size := - 1\<rparr>)
         else p)"

text \<open>\<^verbatim>\<open>to_string\<close>, lines 436 to 458, branch for branch.\<close>

definition vector_to_string :: "vector_printer \<Rightarrow> string" where
  "vector_to_string p =
     (if vp_size p = 0 then ''empty''
      else if vp_size p > 0 then
        (case vp_val p of
           VectorBool b n c w \<Rightarrow>
             (let capacity = (c * vp_bits_per_word p) mod 2 ^ 64 in
              if vp_size p = 0
              then ''empty '' @ vp_typename p @ ''<bool> (capacity='' @ fmt_d capacity @ '')''
              else vp_typename p @ ''<bool> (length='' @ fmt_d (vp_size p) @ '', capacity=''
                     @ fmt_d capacity @ '')'')
         | Vector b e c \<Rightarrow>
             (let capacity = c - b in
              if vp_size p = 0
              then ''empty '' @ vp_typename p @ '' (capacity='' @ fmt_d capacity @ '')''
              else vp_typename p @ '' (length='' @ fmt_d (vp_size p) @ '', capacity=''
                     @ fmt_d capacity @ '')''))
      else ''invalid'')"

section \<open>StdSplitBufferPrinter and StdDequePrinter\<close>

record split_buffer_val =
  sb_begin :: int
  sb_end :: int
  sb_end_cap :: int

record split_buffer_printer =
  sbp_begin :: int
  sbp_end :: int
  sbp_end_cap :: int
  sbp_size :: int
  sbp_capacity :: int
  sbp_children :: bool

record split_buffer_iterator =
  sbi_ptr :: int
  sbi_end :: int
  sbi_count :: int

definition split_buffer_next ::
  "split_buffer_iterator \<Rightarrow> (string \<times> gvalue, split_buffer_iterator) step" where
  "split_buffer_next it =
     (if sbi_ptr it \<ge> sbi_end it then StopIteration
      else Yield (label (sbi_count it), LazyAt (sbi_ptr it))
             (it\<lparr>sbi_count := sbi_count it + 1, sbi_ptr := sbi_ptr it + 1\<rparr>))"

definition split_buffer_children :: "split_buffer_printer \<Rightarrow> split_buffer_iterator" where
  "split_buffer_children p = \<lparr>sbi_ptr = sbp_begin p, sbi_end = sbp_end p, sbi_count = 0\<rparr>"

text \<open>
  The constructor, lines 507 to 526. The \<^verbatim>\<open>try\<close> turns an exception of the count into
  the invalid state.
\<close>

definition StdSplitBufferPrinter_init :: "split_buffer_val \<Rightarrow> split_buffer_printer option" where
  "StdSplitBufferPrinter_init val =
     (let sz0 = sb_end val - sb_begin val;
          cap0 = sb_end_cap val - sb_begin val;
          p = \<lparr>sbp_begin = sb_begin val, sbp_end = sb_end val, sbp_end_cap = sb_end_cap val,
               sbp_size = (if cap0 < sz0 then - 1 else sz0),
               sbp_capacity = (if cap0 < sz0 then - 1 else cap0),
               sbp_children = False\<rparr>
      in if sbp_size p > 0 then
           (case py_list (\<lambda>s. Some (split_buffer_next s)) (split_buffer_children p) of
              None \<Rightarrow> None
            | Some (Inl e) \<Rightarrow> Some (p\<lparr>sbp_size := - 1, sbp_capacity := - 1\<rparr>)
            | Some (Inr xs) \<Rightarrow>
                (if sbp_size p \<noteq> int (length xs)
                 then Some (p\<lparr>sbp_size := - 1, sbp_capacity := - 1\<rparr>)
                 else Some (p\<lparr>sbp_children := True\<rparr>)))
         else Some p)"

record deque_val =
  dq_block_size :: int
  dq_map :: split_buffer_val
  dq_start :: int
  dq_size :: int

record deque_printer =
  dp_typename :: string
  dp_block_size :: int
  dp_blocks :: split_buffer_printer
  dp_start :: int
  dp_size :: int
  dp_capacity :: int
  dp_children :: bool

record deque_iterator =
  di_count :: int
  di_size :: int
  di_block_size :: int
  di_start :: int
  di_map_begin :: int
  di_map_end :: int

text \<open>
  \<^verbatim>\<open>_iterator.__next__\<close>, lines 562 to 581. Adding the offset to the dereferenced block
  pointer reads the map cell; the element itself is handed out unread.
\<close>

definition deque_next :: "int memory \<Rightarrow> deque_iterator \<Rightarrow> (string \<times> gvalue, deque_iterator) step" where
  "deque_next m it =
     (if di_count it \<ge> di_size it then StopIteration
      else if di_start it > di_block_size it then StopIteration
      else
        (let idx = di_start it + di_count it in
         if di_block_size it = 0 then Raise GdbError
         else
           (let block_ptr = di_map_begin it + (idx sdiv di_block_size it) in
            if block_ptr \<ge> di_map_end it then StopIteration
            else
              (let idx' = idx smod di_block_size it in
               case fetch m block_ptr of
                 Inl e \<Rightarrow> Raise e
               | Inr block \<Rightarrow>
                   Yield (label (di_count it), LazyAt (block + idx'))
                     (it\<lparr>di_count := di_count it + 1\<rparr>)))))"

definition deque_children :: "deque_printer \<Rightarrow> deque_iterator" where
  "deque_children p =
     \<lparr>di_count = 0, di_size = dp_size p, di_block_size = dp_block_size p, di_start = dp_start p,
      di_map_begin = sbp_begin (dp_blocks p), di_map_end = sbp_end (dp_blocks p)\<rparr>"

text \<open>
  The loop of lines 597 and 598 over the map: each map cell is dereferenced (which reads
  the cell) and the block behind it is formatted (which reads the block's first element).
\<close>

fun probe_blocks :: "int memory \<Rightarrow> (string \<times> gvalue) list \<Rightarrow> exn + unit" where
  "probe_blocks m [] = Inr ()"
| "probe_blocks m ((idx, ptr) # rest) =
     (case ptr of
        LazyAt a \<Rightarrow>
          (case fetch m a of
             Inl e \<Rightarrow> Inl e
           | Inr block \<Rightarrow>
               (case fetch m block of Inl e \<Rightarrow> Inl e | Inr first \<Rightarrow> probe_blocks m rest))
      | SecondAt a \<Rightarrow> Inl GdbError
      | PyBool b \<Rightarrow> Inl GdbError)"

text \<open>
  The constructor, lines 583 to 607. Its \<^verbatim>\<open>try\<close> and \<^verbatim>\<open>except\<close> lines are comments in
  the source, so an exception raised while the blocks are probed or the elements counted
  leaves the constructor (\<open>Inl\<close>).
\<close>

definition StdDequePrinter_init ::
  "int memory \<Rightarrow> string \<Rightarrow> deque_val \<Rightarrow> (exn + deque_printer) option" where
  "StdDequePrinter_init m tn val =
     (case StdSplitBufferPrinter_init (dq_map val) of
        None \<Rightarrow> None
      | Some blocks \<Rightarrow>
          (let p = \<lparr>dp_typename = tn, dp_block_size = dq_block_size val, dp_blocks = blocks,
                    dp_start = dq_start val, dp_size = dq_size val,
                    dp_capacity = sbp_capacity blocks * dq_block_size val,
                    dp_children = False\<rparr>
           in if dp_size p > 0 \<and> dp_start p < dp_block_size p \<and> sbp_children blocks
                 \<and> dp_size p \<le> sbp_size blocks * dp_block_size p
              then
                (case py_list (\<lambda>s. Some (split_buffer_next s)) (split_buffer_children blocks) of
                   None \<Rightarrow> None
                 | Some (Inl e) \<Rightarrow> Some (Inl e)
                 | Some (Inr ptrs) \<Rightarrow>
                     (case probe_blocks m ptrs of
                        Inl e \<Rightarrow> Some (Inl e)
                      | Inr _ \<Rightarrow>
                          (case py_list (\<lambda>s. Some (deque_next m s)) (deque_children p) of
                             None \<Rightarrow> None
                           | Some (Inl e) \<Rightarrow> Some (Inl e)
                           | Some (Inr xs) \<Rightarrow>
                               (if dp_size p \<noteq> int (length xs)
                                then Some (Inr (p\<lparr>dp_size := - 1\<rparr>))
                                else Some (Inr (p\<lparr>dp_children := True\<rparr>))))))
              else Some (Inr (p\<lparr>dp_size := - 1\<rparr>))))"

definition deque_to_string :: "deque_printer \<Rightarrow> string" where
  "deque_to_string p =
     (if dp_size p = 0 then ''empty''
      else if dp_size p > 0 then
        dp_typename p @ '' (length='' @ fmt_d (dp_size p) @ '', capacity=''
          @ fmt_d (dp_capacity p) @ '')''
      else ''invalid'')"

section \<open>StdListPrinter\<close>

text \<open>
  A list node holds its two links; its payload is referred to by the node's address. The
  root value gives the address of the sentinel \<^verbatim>\<open>__end_\<close>, the sentinel's
  \<^verbatim>\<open>__next_\<close> link and the stored size \<^verbatim>\<open>__size_alloc_.__first_\<close>.
\<close>

record list_node =
  ln_prev :: int
  ln_next :: int

record list_val =
  l_end_address :: int
  l_end_next :: int
  l_size_alloc :: int

record list_printer =
  lp_typename :: string
  lp_val :: list_val
  lp_size :: int
  lp_children :: bool

record list_iterator =
  li_head :: int
  li_base :: int
  li_num_nodes :: int
  li_count :: int

text \<open>
  \<^verbatim>\<open>_iterator.__next__\<close>, lines 218 to 226. The source takes the node's link as an
  unread handle and reads it when the next call compares it with the sentinel; here the
  node is read in the call that passes it. Both give \<^verbatim>\<open>list\<close> the same elements and
  the same exception.
\<close>

definition list_next :: "list_node memory \<Rightarrow> list_iterator \<Rightarrow> (string \<times> gvalue, list_iterator) step" where
  "list_next m it =
     (if li_base it = li_head it \<or> li_count it = li_num_nodes it then StopIteration
      else
        (case fetch m (li_base it) of
           Inl e \<Rightarrow> Raise e
         | Inr elt \<Rightarrow>
             Yield (label (li_count it), LazyAt (li_base it))
               (it\<lparr>li_base := ln_next elt, li_count := li_count it + 1\<rparr>)))"

definition list_children :: "list_printer \<Rightarrow> list_iterator" where
  "list_children p =
     \<lparr>li_head = l_end_address (lp_val p), li_base = l_end_next (lp_val p),
      li_num_nodes = lp_size p, li_count = 0\<rparr>"

definition StdListPrinter_init :: "list_node memory \<Rightarrow> string \<Rightarrow> list_val \<Rightarrow> list_printer option" where
  "StdListPrinter_init m tn val =
     (let p = \<lparr>lp_typename = tn, lp_val = val, lp_size = l_size_alloc val, lp_children = False\<rparr>
      in case py_list (\<lambda>s. Some (list_next m s)) (list_children p) of
           None \<Rightarrow> None
         | Some (Inl e) \<Rightarrow> Some (p\<lparr>lp_size := - 1\<rparr>)
         | Some (Inr xs) \<Rightarrow>
             (if lp_size p \<noteq> int (length xs) then Some (p\<lparr>lp_size := - 1\<rparr>)
              else if lp_size p > 0 then Some (p\<lparr>lp_children := True\<rparr>)
              else Some p))"

definition list_to_string :: "list_printer \<Rightarrow> string" where
  "list_to_string p =
     (if lp_size p = 0 then ''empty''
      else if lp_size p > 0 then lp_typename p @ '' (length='' @ fmt_d (lp_size p) @ '')''
      else ''invalid'')"

section \<open>StdRbtreePrinter and HashTablePrinter\<close>

text \<open>
  The map printers (\<^verbatim>\<open>StdMapPrinter\<close>, \<^verbatim>\<open>UnorderedMapPrinter\<close>) wrap the iterator of
  their base class: each element's label gets the key appended, formatted by the host.
  The parameter \<open>ks\<close> is \<open>None\<close> for the set printers; for the map printers it is the
  host's formatting of the key stored in the node at an address, \<open>None\<close> where that
  raises.
\<close>

type_synonym key_str = "(int \<Rightarrow> string option) option"

definition map_wrap ::
  "key_str \<Rightarrow> (string \<times> gvalue, 's) step \<Rightarrow> (string \<times> gvalue, 's) step" where
  "map_wrap ks r =
     (case ks of
        None \<Rightarrow> r
      | Some f \<Rightarrow>
          (case r of
             Yield (idx_str, item) s \<Rightarrow>
               (case item of
                  LazyAt a \<Rightarrow>
                    (case f a of
                       None \<Rightarrow> StopIteration
                     | Some k \<Rightarrow> Yield (idx_str @ '' '' @ k, SecondAt a) s)
                | SecondAt a \<Rightarrow> StopIteration
                | PyBool b \<Rightarrow> StopIteration)
           | Raise e \<Rightarrow> StopIteration
           | StopIteration \<Rightarrow> StopIteration))"

record tree_node =
  tn_left :: int
  tn_right :: int
  tn_parent :: int

record rbtree_val =
  rb_begin_node :: int
  rb_pair3_first :: "64 word"

record rbtree_printer =
  rp_typename :: string
  rp_val :: rbtree_val
  rp_size :: int
  rp_children :: bool

record rbtree_iterator =
  ri_node :: int
  ri_size :: int
  ri_count :: int

text \<open>
  Lines 693 to 699. The stored count \<^verbatim>\<open>__pair3_.__first_\<close> has the container's unsigned
  size type, and the debugger compares it with 0 in that type.
\<close>

definition rbtree_children :: "rbtree_printer \<Rightarrow> rbtree_iterator" where
  "rbtree_children p =
     \<lparr>ri_node = rb_begin_node (rp_val p),
      ri_size = (if rb_pair3_first (rp_val p) < 0 then 0 else uint (rb_pair3_first (rp_val p))),
      ri_count = 0\<rparr>"

text \<open>The two inner loops of lines 717 and 721; neither has a bound.\<close>

partial_function (option) descend_left :: "tree_node memory \<Rightarrow> int \<Rightarrow> (exn + int) option" where
  "descend_left m node =
     (case fetch m node of
        Inl e \<Rightarrow> Some (Inl e)
      | Inr n \<Rightarrow> if tn_left n \<noteq> 0 then descend_left m (tn_left n) else Some (Inr node))"

partial_function (option) ascend :: "tree_node memory \<Rightarrow> int \<Rightarrow> int \<Rightarrow> (exn + int) option" where
  "ascend m node parent_node =
     (case fetch m parent_node of
        Inl e \<Rightarrow> Some (Inl e)
      | Inr p \<Rightarrow>
          if node \<noteq> tn_left p then ascend m parent_node (tn_parent p)
          else Some (Inr parent_node))"

text \<open>
  \<^verbatim>\<open>_iterator.__next__\<close>, lines 707 to 733: any exception while the successor is
  computed becomes \<^verbatim>\<open>StopIteration\<close>.
\<close>

definition rbtree_next ::
  "tree_node memory \<Rightarrow> rbtree_iterator \<Rightarrow> (string \<times> gvalue, rbtree_iterator) step option" where
  "rbtree_next m it =
     (if ri_count it \<ge> ri_size it then Some StopIteration
      else
        (case fetch m (ri_node it) of
           Inl e \<Rightarrow> Some StopIteration
         | Inr n \<Rightarrow>
             (case (if tn_right n \<noteq> 0 then descend_left m (tn_right n)
                    else ascend m (ri_node it) (tn_parent n)) of
                None \<Rightarrow> None
              | Some (Inl e) \<Rightarrow> Some StopIteration
              | Some (Inr node) \<Rightarrow>
                  Some (Yield (label (ri_count it), LazyAt (ri_node it))
                          (it\<lparr>ri_node := node, ri_count := ri_count it + 1\<rparr>)))))"

text \<open>
  The constructor, lines 735 to 746. \<^verbatim>\<open>len(iterator)\<close> is the iterator's own
  \<^verbatim>\<open>size\<close>, which the traversal does not change. The interpreter's \<^verbatim>\<open>len\<close> raises
  \<^verbatim>\<open>OverflowError\<close> on a length above its largest index \<open>2 ^ 63 - 1\<close>, and \<^verbatim>\<open>list\<close>
  asks an iterator that has \<^verbatim>\<open>__len__\<close> for its length before it reads the first
  element; the handler of line 745 turns the exception into size -1.
\<close>

definition max_index :: int where
  "max_index = 2 ^ 63 - 1"

definition StdRbtreePrinter_init ::
  "tree_node memory \<Rightarrow> key_str \<Rightarrow> string \<Rightarrow> rbtree_val \<Rightarrow> rbtree_printer option" where
  "StdRbtreePrinter_init m ks tn val =
     (let p = \<lparr>rp_typename = tn, rp_val = val, rp_size = 0, rp_children = False\<rparr>;
          iterator = rbtree_children p
      in if ri_size iterator > max_index then Some (p\<lparr>rp_size := - 1\<rparr>)
         else
           (case py_list (\<lambda>s. map_option (map_wrap ks) (rbtree_next m s)) iterator of
              None \<Rightarrow> None
            | Some (Inl e) \<Rightarrow> Some (p\<lparr>rp_size := - 1\<rparr>)
            | Some (Inr xs) \<Rightarrow>
                (let sz = int (length xs) in
                 if sz \<noteq> ri_size iterator then Some (p\<lparr>rp_size := - 1\<rparr>)
                 else if sz > 0 then Some (p\<lparr>rp_size := sz, rp_children := True\<rparr>)
                 else Some (p\<lparr>rp_size := sz\<rparr>))))"

definition rbtree_to_string :: "rbtree_printer \<Rightarrow> string" where
  "rbtree_to_string p =
     (if rp_size p = 0 then ''empty''
      else if rp_size p > 0 then rp_typename p @ '' (count='' @ fmt_d (rp_size p) @ '')''
      else ''invalid'')"

record hash_node =
  hn_next :: int

record hashtable_val =
  ht_p1_first_next :: int
  ht_p2_first :: "64 word"

record hashtable_printer =
  hp_typename :: string
  hp_val :: hashtable_val
  hp_size :: int
  hp_children :: bool

record hashtable_iterator =
  hi_node :: int
  hi_size :: int
  hi_count :: int

definition hashtable_children :: "hashtable_printer \<Rightarrow> hashtable_iterator" where
  "hashtable_children p =
     \<lparr>hi_node = ht_p1_first_next (hp_val p),
      hi_size = (if ht_p2_first (hp_val p) < 0 then 0 else uint (ht_p2_first (hp_val p))),
      hi_count = 0\<rparr>"

text \<open>
  \<^verbatim>\<open>_iterator.__next__\<close>, lines 829 to 845: formatting the entry's value reads the
  entry; a failure there becomes \<^verbatim>\<open>StopIteration\<close>.
\<close>

definition hashtable_next ::
  "hash_node memory \<Rightarrow> hashtable_iterator \<Rightarrow> (string \<times> gvalue, hashtable_iterator) step" where
  "hashtable_next m it =
     (if hi_count it \<ge> hi_size it then StopIteration
      else if hi_node it = 0 then StopIteration
      else
        (case fetch m (hi_node it) of
           Inl e \<Rightarrow> StopIteration
         | Inr node \<Rightarrow>
             Yield (label (hi_count it), LazyAt (hi_node it))
               (it\<lparr>hi_node := hn_next node, hi_count := hi_count it + 1\<rparr>)))"

text \<open>
  The constructor, lines 847 to 858, with the same \<^verbatim>\<open>len\<close> and \<^verbatim>\<open>list\<close> as for the
  tree.
\<close>

definition HashTablePrinter_init ::
  "hash_node memory \<Rightarrow> key_str \<Rightarrow> string \<Rightarrow> hashtable_val \<Rightarrow> hashtable_printer option" where
  "HashTablePrinter_init m ks tn val =
     (let p = \<lparr>hp_typename = tn, hp_val = val, hp_size = 0, hp_children = False\<rparr>;
          iterator = hashtable_children p
      in if hi_size iterator > max_index then Some (p\<lparr>hp_size := - 1\<rparr>)
         else
           (case py_list (\<lambda>s. Some (map_wrap ks (hashtable_next m s))) iterator of
              None \<Rightarrow> None
            | Some (Inl e) \<Rightarrow> Some (p\<lparr>hp_size := - 1\<rparr>)
            | Some (Inr xs) \<Rightarrow>
                (let sz = int (length xs) in
                 if sz \<noteq> hi_size iterator then Some (p\<lparr>hp_size := - 1\<rparr>)
                 else if sz > 0 then Some (p\<lparr>hp_size := sz, hp_children := True\<rparr>)
                 else Some (p\<lparr>hp_size := sz\<rparr>))))"

definition hashtable_to_string :: "hashtable_printer \<Rightarrow> string" where
  "hashtable_to_string p =
     (if hp_size p = 0 then ''empty''
      else if hp_size p > 0 then hp_typename p @ '' (count='' @ fmt_d (hp_size p) @ '')''
      else ''invalid'')"

section \<open>StdForwardListPrinter\<close>

text \<open>
  A node of a forward list holds its link; its payload is referred to by the node's
  address. The root value gives the head pointer
  \<^verbatim>\<open>__before_begin_.__first_.__next_\<close>.
\<close>

record forward_node =
  fn_next :: int

record forward_list_val =
  fl_before_begin_next :: int

record forward_list_printer =
  flp_typename :: string
  flp_val :: forward_list_val
  flp_head :: int
  flp_size :: int
  flp_children :: bool

record forward_list_iterator =
  fli_node :: int
  fli_count :: int

text \<open>
  \<^verbatim>\<open>_iterator.__next__\<close>, lines 277 to 284. As for the list, the source takes the
  node's link as an unread handle and reads it when the next call compares it with 0;
  here the node is read in the call that passes it, which gives \<^verbatim>\<open>list\<close> the same
  elements and the same exception.
\<close>

definition forward_list_next ::
  "forward_node memory \<Rightarrow> forward_list_iterator
     \<Rightarrow> (string \<times> gvalue, forward_list_iterator) step" where
  "forward_list_next m it =
     (if fli_node it = 0 then StopIteration
      else
        (case fetch m (fli_node it) of
           Inl e \<Rightarrow> Raise e
         | Inr node \<Rightarrow>
             Yield (label (fli_count it), LazyAt (fli_node it))
               (it\<lparr>fli_count := fli_count it + 1, fli_node := fn_next node\<rparr>)))"

definition forward_list_children :: "forward_list_printer \<Rightarrow> forward_list_iterator" where
  "forward_list_children p = \<lparr>fli_node = flp_head p, fli_count = 0\<rparr>"

text \<open>
  The constructor, lines 286 to 297: the size is the number of elements of one traversal,
  -1 if the traversal raises.
\<close>

definition StdForwardListPrinter_init ::
  "forward_node memory \<Rightarrow> string \<Rightarrow> forward_list_val \<Rightarrow> forward_list_printer option" where
  "StdForwardListPrinter_init m tn val =
     (let p = \<lparr>flp_typename = tn, flp_val = val, flp_head = fl_before_begin_next val,
               flp_size = 0, flp_children = False\<rparr>
      in case py_list (\<lambda>s. Some (forward_list_next m s)) (forward_list_children p) of
           None \<Rightarrow> None
         | Some (Inl e) \<Rightarrow> Some (p\<lparr>flp_size := - 1\<rparr>)
         | Some (Inr xs) \<Rightarrow>
             (let sz = int (length xs) in
              if sz > 0 then Some (p\<lparr>flp_size := sz, flp_children := True\<rparr>)
              else Some (p\<lparr>flp_size := sz\<rparr>)))"

definition forward_list_to_string :: "forward_list_printer \<Rightarrow> string" where
  "forward_list_to_string p =
     (if flp_size p = 0 then ''empty''
      else if flp_size p > 0 then flp_typename p @ '' (length='' @ fmt_d (flp_size p) @ '')''
      else ''invalid'')"

section \<open>StdArrayPrinter, StdPairPrinter and StdTuplePrinter\<close>

text \<open>
  The root value of an array gives the address of \<^verbatim>\<open>__elems_\<close> and the second template
  argument of its type, the number of elements. The iterator of lines 314 to 329 hands
  out the elements unread.
\<close>

record array_val =
  ar_elems :: int
  ar_template_argument :: int

record array_printer =
  ap_typename :: string
  ap_val :: int
  ap_size :: int

record array_iterator =
  ai_val :: int
  ai_size :: int
  ai_count :: int

definition array_next :: "array_iterator \<Rightarrow> (string \<times> gvalue, array_iterator) step" where
  "array_next it =
     (if ai_count it \<ge> ai_size it then StopIteration
      else Yield (label (ai_count it), LazyAt (ai_val it + ai_count it))
             (it\<lparr>ai_count := ai_count it + 1\<rparr>))"

definition StdArrayPrinter_init :: "string \<Rightarrow> array_val \<Rightarrow> array_printer" where
  "StdArrayPrinter_init tn val =
     \<lparr>ap_typename = tn, ap_val = ar_elems val, ap_size = ar_template_argument val\<rparr>"

definition array_children :: "array_printer \<Rightarrow> array_iterator" where
  "array_children p = \<lparr>ai_val = ap_val p, ai_size = ap_size p, ai_count = 0\<rparr>"

definition array_to_string :: "array_printer \<Rightarrow> string" where
  "array_to_string p = ''(length='' @ fmt_d (ap_size p) @ '')''"

text \<open>
  The printers of a pair and of a bitset return their elements as a list of the
  interpreter, which the host then iterates. The state of the iterator of such a list is
  the part of the list not delivered yet.
\<close>

definition list_iter_next :: "'a list \<Rightarrow> ('a, 'a list) step" where
  "list_iter_next xs = (case xs of [] \<Rightarrow> StopIteration | x # rest \<Rightarrow> Yield x rest)"

text \<open>
  The root value of a pair gives the addresses of its two members, which
  \<^verbatim>\<open>children\<close>, lines 166 to 168, hands out unread.
\<close>

record pair_val =
  pr_first :: int
  pr_second :: int

record pair_printer =
  pp_typename :: string
  pp_val :: pair_val

definition StdPairPrinter_init :: "string \<Rightarrow> pair_val \<Rightarrow> pair_printer" where
  "StdPairPrinter_init tn val = \<lparr>pp_typename = tn, pp_val = val\<rparr>"

definition pair_children :: "pair_printer \<Rightarrow> (string \<times> gvalue) list" where
  "pair_children p =
     [(''[0] = first '', LazyAt (pr_first (pp_val p))),
      (''[1] = second'', LazyAt (pr_second (pp_val p)))]"

definition pair_to_string :: "pair_printer \<Rightarrow> string" where
  "pair_to_string p = ''pair''"

text \<open>
  A tuple keeps its elements in the base classes of its member \<^verbatim>\<open>base_\<close>, one leaf for
  each element. The root value gives, when the tuple has the member \<^verbatim>\<open>base_\<close> (the empty
  tuple has none), the list of its leaves: for each leaf the address of its member
  \<^verbatim>\<open>value\<close>, or \<open>None\<close> for a leaf without that member (a leaf that inherits from an
  empty element type). Looking up a member that does not exist raises \<^verbatim>\<open>gdb.error\<close>.
\<close>

record tuple_val =
  tv_base :: "int option list option"

record tuple_printer =
  tp_typename :: string
  tp_val :: tuple_val

record tuple_iterator =
  ti_fields :: "int option list"
  ti_count :: nat

definition StdTuplePrinter_init :: "string \<Rightarrow> tuple_val \<Rightarrow> tuple_printer" where
  "StdTuplePrinter_init tn val = \<lparr>tp_typename = tn, tp_val = val\<rparr>"

text \<open>\<^verbatim>\<open>children\<close> and the iterator's constructor, lines 177 to 180 and 194.\<close>

definition tuple_children :: "tuple_printer \<Rightarrow> exn + tuple_iterator" where
  "tuple_children p =
     (case tv_base (tp_val p) of
        None \<Rightarrow> Inl GdbError
      | Some leaves \<Rightarrow> Inr \<lparr>ti_fields = leaves, ti_count = 0\<rparr>)"

text \<open>\<^verbatim>\<open>_iterator.__next__\<close>, lines 185 to 190.\<close>

definition tuple_next :: "tuple_iterator \<Rightarrow> (string \<times> gvalue, tuple_iterator) step" where
  "tuple_next it =
     (if ti_count it \<ge> length (ti_fields it) then StopIteration
      else
        (case ti_fields it ! ti_count it of
           None \<Rightarrow> Raise GdbError
         | Some field \<Rightarrow>
             Yield (label (int (ti_count it + 1) - 1), LazyAt field)
               (it\<lparr>ti_count := ti_count it + 1\<rparr>)))"

text \<open>\<^verbatim>\<open>to_string\<close>, lines 197 to 200: the fields of the tuple's own type are counted.\<close>

definition tuple_to_string :: "tuple_printer \<Rightarrow> string" where
  "tuple_to_string p = (case tv_base (tp_val p) of None \<Rightarrow> ''empty'' | Some leaves \<Rightarrow> ''tuple'')"

section \<open>StdBitsetPrinter\<close>

text \<open>
  The root value of a bitset gives the address of its storage \<^verbatim>\<open>__first_\<close> (one word,
  or an array of words), the number of words \<^verbatim>\<open>__n_words\<close>, the word width
  \<^verbatim>\<open>__bits_per_word\<close> (\<open>None\<close> when the debugger reports it as optimised out) and the
  first template argument of its type, the number of bits. A storage word is an unsigned
  64-bit word.
\<close>

record bitset_val =
  bs_first :: int
  bs_n_words :: int
  bs_bits_per_word :: "int option"
  bs_template_argument :: int

record bitset_printer =
  bp_typename :: string
  bp_val :: bitset_val
  bp_bit_count :: int

definition StdBitsetPrinter_init :: "string \<Rightarrow> bitset_val \<Rightarrow> bitset_printer" where
  "StdBitsetPrinter_init tn val =
     \<lparr>bp_typename = tn, bp_val = val, bp_bit_count = bs_template_argument val\<rparr>"

definition bitset_to_string :: "bitset_printer \<Rightarrow> string" where
  "bitset_to_string p = bp_typename p @ '' (length='' @ fmt_d (bp_bit_count p) @ '')''"

text \<open>
  The inner loop of \<^verbatim>\<open>children\<close>, lines 678 to 682: the set bits of one word, lowest
  first; \<open>offset\<close> is \<^verbatim>\<open>word_index * bits_per_word\<close>.
\<close>

function bitset_bits :: "64 word \<Rightarrow> int \<Rightarrow> int \<Rightarrow> (string \<times> int) list" where
  "bitset_bits word offset bit_index =
     (if word = 0 then []
      else (if word AND 1 \<noteq> 0 then [(label (offset + bit_index), 1)] else [])
           @ bitset_bits (drop_bit 1 word) offset (bit_index + 1))"
  by pat_completeness auto
termination
proof (relation "measure (\<lambda>(word, offset, bit_index). unat word)")
  show "wf (measure (\<lambda>(word :: 64 word, offset :: int, bit_index :: int). unat word))"
    by simp
next
  fix word :: "64 word" and offset bit_index :: int
  assume "word \<noteq> 0"
  then have "unat word \<noteq> 0" by (simp add: unat_eq_0)
  then have "unat word div 2 < unat word" by simp
  moreover have "unat (drop_bit 1 word) = drop_bit 1 (unat word)"
    by (rule unat_drop_bit_eq)
  moreover have "drop_bit 1 (unat word) = unat word div 2"
    by (simp add: drop_bit_eq_div)
  ultimately have "unat (drop_bit 1 word) < unat word"
    by (simp only:)
  then show "((drop_bit 1 word, offset, bit_index + 1), (word, offset, bit_index))
               \<in> measure (\<lambda>(word, offset, bit_index). unat word)"
    by simp
qed

text \<open>
  The outer loop, lines 672 to 683: the words in order; reading a word the debugger
  cannot read ends \<^verbatim>\<open>children\<close> with the exception, and no list is returned.
\<close>

function bitset_words ::
  "64 word memory \<Rightarrow> int \<Rightarrow> int \<Rightarrow> int \<Rightarrow> int \<Rightarrow> exn + (string \<times> int) list" where
  "bitset_words m words words_count bits_per_word word_index =
     (if word_index < words_count then
        (case fetch m (if words_count = 1 then words else words + word_index) of
           Inl e \<Rightarrow> Inl e
         | Inr word \<Rightarrow>
             (case bitset_words m words words_count bits_per_word (word_index + 1) of
                Inl e \<Rightarrow> Inl e
              | Inr rest \<Rightarrow> Inr (bitset_bits word (word_index * bits_per_word) 0 @ rest)))
      else Inr [])"
  by pat_completeness auto
termination
  by (relation "measure (\<lambda>(m, words, words_count, bits_per_word, word_index).
                  nat (words_count - word_index))") simp_all

definition bitset_children :: "64 word memory \<Rightarrow> bitset_printer \<Rightarrow> exn + (string \<times> int) list" where
  "bitset_children m p =
     (let words = bs_first (bp_val p);
          words_count = bs_n_words (bp_val p);
          bits_per_word = (case bs_bits_per_word (bp_val p) of None \<Rightarrow> 64 | Some k \<Rightarrow> k)
      in bitset_words m words words_count bits_per_word 0)"

section \<open>StdStackOrQueuePrinter and PointerPrinter\<close>

text \<open>
  Both printers hand their element sequence over to the printer that the host finds for
  the value they wrap: the container \<^verbatim>\<open>c\<close> of a stack or queue, the pointee of a smart
  pointer. The host's lookup \<^verbatim>\<open>gdb.default_visualizer\<close> is the parameter
  \<open>default_visualizer\<close> (\<open>None\<close> where the host has no printer for the value), and
  \<open>has_children\<close> says whether a printer so found has the attribute \<^verbatim>\<open>children\<close>.
  \<^verbatim>\<open>_children\<close> is the wrapped printer's \<^verbatim>\<open>children\<close>, the parameter \<open>inner\<close>. The
  host does not call \<^verbatim>\<open>_children\<close> of a printer without the attribute
  \<^verbatim>\<open>children\<close>; the call would raise, for want of a wrapped printer.
\<close>

record 'v stack_printer =
  sq_typename :: string
  sq_visualizer :: "'v option"
  sq_children :: bool

definition StdStackOrQueuePrinter_init ::
  "('c \<Rightarrow> 'v option) \<Rightarrow> ('v \<Rightarrow> bool) \<Rightarrow> string \<Rightarrow> 'c \<Rightarrow> 'v stack_printer" where
  "StdStackOrQueuePrinter_init default_visualizer has_children tn c =
     (let visualizer = default_visualizer c
      in \<lparr>sq_typename = tn, sq_visualizer = visualizer,
          sq_children = (case visualizer of None \<Rightarrow> False | Some v \<Rightarrow> has_children v)\<rparr>)"

definition stack_children :: "('v \<Rightarrow> exn + 's) \<Rightarrow> 'v stack_printer \<Rightarrow> exn + 's" where
  "stack_children inner p =
     (case sq_visualizer p of None \<Rightarrow> Inl GdbError | Some v \<Rightarrow> inner v)"

text \<open>
  The constructor of the pointer printers, lines 114 to 125: a null pointer has neither
  value nor wrapped printer.
\<close>

record 'v pointer_printer =
  pt_ptr :: int
  pt_val :: "int option"
  pt_visualizer :: "'v option"
  pt_children :: bool

definition PointerPrinter_init ::
  "(int \<Rightarrow> 'v option) \<Rightarrow> ('v \<Rightarrow> bool) \<Rightarrow> int \<Rightarrow> 'v pointer_printer" where
  "PointerPrinter_init default_visualizer has_children ptr =
     (if ptr \<noteq> 0 then
        (let visualizer = default_visualizer ptr
         in \<lparr>pt_ptr = ptr, pt_val = Some ptr, pt_visualizer = visualizer,
             pt_children = (case visualizer of None \<Rightarrow> False | Some v \<Rightarrow> has_children v)\<rparr>)
      else \<lparr>pt_ptr = ptr, pt_val = None, pt_visualizer = None, pt_children = False\<rparr>)"

definition pointer_children :: "('v \<Rightarrow> exn + 's) \<Rightarrow> 'v pointer_printer \<Rightarrow> exn + 's" where
  "pointer_children inner p =
     (case pt_visualizer p of None \<Rightarrow> Inl GdbError | Some v \<Rightarrow> inner v)"

section \<open>Requests for the element sequence\<close>

text \<open>
  A printer and the iterators made from it are objects of the interpreter: a call of
  \<^verbatim>\<open>children\<close> makes a new iterator object from the printer's fields, and each call of
  \<^verbatim>\<open>__next__\<close> updates the iterator it is called on. The objects of one printer are
  kept in a heap: the printer and the iterators made so far, the newest last.
\<close>

record ('p, 's) heap =
  h_printer :: 'p
  h_iterators :: "'s list"

definition new_iterator :: "'s \<Rightarrow> ('p, 's) heap \<Rightarrow> nat \<times> ('p, 's) heap" where
  "new_iterator s h = (length (h_iterators h), h\<lparr>h_iterators := h_iterators h @ [s]\<rparr>)"

text \<open>
  \<^verbatim>\<open>list\<close> on the iterator object \<open>i\<close> of the heap. Each element read replaces the
  iterator's state in the heap.
\<close>

partial_function (option) drain ::
  "('s \<Rightarrow> ('a, 's) step option) \<Rightarrow> nat \<Rightarrow> ('p, 's) heap
     \<Rightarrow> ((exn + 'a list) \<times> ('p, 's) heap) option" where
  "drain nxt i h =
     (case nxt (h_iterators h ! i) of
        None \<Rightarrow> None
      | Some StopIteration \<Rightarrow> Some (Inr [], h)
      | Some (Raise e) \<Rightarrow> Some (Inl e, h)
      | Some (Yield x s') \<Rightarrow>
          Option.bind (drain nxt i (h\<lparr>h_iterators := (h_iterators h)[i := s']\<rparr>))
            (\<lambda>(r, h'). Some (cons_result x r, h')))"

text \<open>
  A request for the element sequence: the printer's \<^verbatim>\<open>children\<close> is called, which
  makes a new iterator or raises, and the iterator is read to its end. Two requests in
  a row: the second works on the heap that the first has left.
\<close>

definition request_elements ::
  "('p \<Rightarrow> exn + 's) \<Rightarrow> ('s \<Rightarrow> ('a, 's) step option) \<Rightarrow> ('p, 's) heap
     \<Rightarrow> ((exn + 'a list) \<times> ('p, 's) heap) option" where
  "request_elements children nxt h =
     (case children (h_printer h) of
        Inl e \<Rightarrow> Some (Inl e, h)
      | Inr s \<Rightarrow> (let (i, h1) = new_iterator s h in drain nxt i h1))"

definition request_twice ::
  "('p \<Rightarrow> exn + 's) \<Rightarrow> ('s \<Rightarrow> ('a, 's) step option) \<Rightarrow> ('p, 's) heap
     \<Rightarrow> ((exn + 'a list) \<times> (exn + 'a list)) option" where
  "request_twice children nxt h =
     (case request_elements children nxt h of
        None \<Rightarrow> None
      | Some (r1, h1) \<Rightarrow>
          (case request_elements children nxt h1 of
             None \<Rightarrow> None
           | Some (r2, h2) \<Rightarrow> Some (r1, r2)))"

section \<open>Chains of links\<close>

text \<open>
  \<open>list_chain m a k\<close> is the address reached from \<open>a\<close> by following \<open>k\<close> times the
  \<^verbatim>\<open>__next_\<close> link of a list node; it is \<open>None\<close> when a node on the way cannot be read.
\<close>

fun list_chain :: "list_node memory \<Rightarrow> int \<Rightarrow> nat \<Rightarrow> int option" where
  "list_chain m a 0 = Some a"
| "list_chain m a (Suc k) =
     (case m a of None \<Rightarrow> None | Some node \<Rightarrow> list_chain m (ln_next node) k)"

section \<open>Properties of \<^verbatim>\<open>list(iterator)\<close>\<close>

text \<open>
  \<^verbatim>\<open>list\<close> is determined by the sequence of states the iterator passes through: if the
  calls from \<open>f 0\<close>, \<open>f 1\<close>, ... yield \<open>x 0\<close>, \<open>x 1\<close>, ... and the call from \<open>f n\<close> stops,
  the list is \<open>[x 0, ..., x (n - 1)]\<close>, and every list that is returned arises so.
\<close>

lemma py_list_None: "nxt s = None \<Longrightarrow> py_list nxt s = None"
  by (subst py_list.simps) simp

lemma py_list_Stop: "nxt s = Some StopIteration \<Longrightarrow> py_list nxt s = Some (Inr [])"
  by (subst py_list.simps) simp

lemma py_list_Raise: "nxt s = Some (Raise e) \<Longrightarrow> py_list nxt s = Some (Inl e)"
  by (subst py_list.simps) simp

lemma py_list_Yield:
  "nxt s = Some (Yield x s') \<Longrightarrow>
   py_list nxt s = Option.bind (py_list nxt s') (\<lambda>r. Some (cons_result x r))"
  by (subst py_list.simps) simp

lemma py_list_steps:
  assumes "\<And>i. i < n \<Longrightarrow> nxt (f i) = Some (Yield (x i) (f (Suc i)))"
    and "nxt (f n) = Some StopIteration"
  shows "py_list nxt (f 0) = Some (Inr (map x [0..<n]))"
  using assms
proof (induction n arbitrary: f x)
  case 0
  then show ?case by (simp add: py_list_Stop)
next
  case (Suc n)
  have tl: "py_list nxt (f (Suc 0)) = Some (Inr (map (\<lambda>i. x (Suc i)) [0..<n]))"
    using Suc.IH [of "\<lambda>i. f (Suc i)" "\<lambda>i. x (Suc i)"] Suc.prems by simp
  have hd: "nxt (f 0) = Some (Yield (x 0) (f (Suc 0)))"
    using Suc.prems(1) [of 0] by simp
  show ?case
    using py_list_Yield [of nxt "f 0" "x 0" "f (Suc 0)"] hd tl
    by (simp add: cons_result_def map_upt_Suc del: upt_Suc)
qed

lemma py_list_steps_raise:
  assumes "\<And>i. i < n \<Longrightarrow> nxt (f i) = Some (Yield (x i) (f (Suc i)))"
    and "nxt (f n) = Some (Raise e)"
  shows "py_list nxt (f 0) = Some (Inl e)"
  using assms
proof (induction n arbitrary: f x)
  case 0
  then show ?case by (simp add: py_list_Raise)
next
  case (Suc n)
  have tl: "py_list nxt (f (Suc 0)) = Some (Inl e)"
    using Suc.IH [of "\<lambda>i. f (Suc i)" "\<lambda>i. x (Suc i)"] Suc.prems by simp
  have hd: "nxt (f 0) = Some (Yield (x 0) (f (Suc 0)))"
    using Suc.prems(1) [of 0] by simp
  show ?case
    using py_list_Yield [of nxt "f 0" "x 0" "f (Suc 0)"] hd tl
    by (simp add: cons_result_def)
qed

lemma py_list_Inr_cases:
  assumes "py_list nxt s = Some (Inr xs)"
  shows "(nxt s = Some StopIteration \<and> xs = []) \<or>
         (\<exists>x s' xs'. nxt s = Some (Yield x s') \<and> py_list nxt s' = Some (Inr xs') \<and> xs = x # xs')"
proof (cases "nxt s")
  case None
  with assms show ?thesis by (simp add: py_list_None)
next
  case (Some r)
  show ?thesis
  proof (cases r)
    case StopIteration
    with Some assms show ?thesis by (simp add: py_list_Stop)
  next
    case (Raise e)
    with Some assms show ?thesis by (simp add: py_list_Raise)
  next
    case (Yield x s')
    with Some have eq: "py_list nxt s = Option.bind (py_list nxt s') (\<lambda>r. Some (cons_result x r))"
      using py_list_Yield [of nxt s x s'] by simp
    with assms obtain r' where r': "py_list nxt s' = Some r'" "cons_result x r' = Inr xs"
      by (auto simp: bind_eq_Some_conv)
    then obtain xs' where "r' = Inr xs'" "xs = x # xs'"
      by (cases r') (auto simp: cons_result_def)
    with r' Some Yield show ?thesis by simp
  qed
qed

lemma py_list_trace:
  assumes "py_list nxt s = Some (Inr xs)"
  shows "\<exists>f. f 0 = s \<and> (\<forall>i<length xs. nxt (f i) = Some (Yield (xs ! i) (f (Suc i))))
           \<and> nxt (f (length xs)) = Some StopIteration"
  using assms
proof (induction xs arbitrary: s)
  case Nil
  then have "nxt s = Some StopIteration"
    using py_list_Inr_cases [of nxt s "[]"] by simp
  then show ?case by (intro exI [of _ "\<lambda>_. s"]) simp
next
  case (Cons x xs)
  then obtain s' where hd: "nxt s = Some (Yield x s')" and tl: "py_list nxt s' = Some (Inr xs)"
    using py_list_Inr_cases [of nxt s "x # xs"] by auto
  from Cons.IH [OF tl] obtain f where f: "f 0 = s'"
    "\<forall>i<length xs. nxt (f i) = Some (Yield (xs ! i) (f (Suc i)))"
    "nxt (f (length xs)) = Some StopIteration" by blast
  let ?g = "\<lambda>i. case i of 0 \<Rightarrow> s | Suc j \<Rightarrow> f j"
  have "\<forall>i<length (x # xs). nxt (?g i) = Some (Yield ((x # xs) ! i) (?g (Suc i)))"
    using hd f by (auto split: nat.splits)
  moreover have "nxt (?g (length (x # xs))) = Some StopIteration" using f by simp
  ultimately show ?case by (intro exI [of _ ?g]) simp
qed


lemma split_buffer_list:
  "py_list (\<lambda>s. Some (split_buffer_next s)) \<lparr>sbi_ptr = b, sbi_end = e, sbi_count = c\<rparr> =
     Some (Inr (map (\<lambda>i. (label (c + int i), LazyAt (b + int i))) [0..<nat (e - b)]))"
proof -
  let ?f = "\<lambda>i. \<lparr>sbi_ptr = b + int i, sbi_end = e, sbi_count = c + int i\<rparr>"
  have "py_list (\<lambda>s. Some (split_buffer_next s)) (?f 0) =
          Some (Inr (map (\<lambda>i. (label (c + int i), LazyAt (b + int i))) [0..<nat (e - b)]))"
    by (rule py_list_steps) (auto simp: split_buffer_next_def)
  then show ?thesis by simp
qed

lemma split_buffer_init:
  "StdSplitBufferPrinter_init val =
     Some \<lparr>sbp_begin = sb_begin val, sbp_end = sb_end val, sbp_end_cap = sb_end_cap val,
           sbp_size = (if sb_end_cap val < sb_end val then - 1 else sb_end val - sb_begin val),
           sbp_capacity = (if sb_end_cap val < sb_end val then - 1 else sb_end_cap val - sb_begin val),
           sbp_children = (sb_begin val < sb_end val \<and> sb_end val \<le> sb_end_cap val)\<rparr>"
  by (simp add: StdSplitBufferPrinter_init_def split_buffer_children_def split_buffer_list Let_def)

text \<open>
  \<^verbatim>\<open>list\<close> returns whenever every call returns and some measure of the iterator's state
  decreases with each element.
\<close>

lemma py_list_terminates:
  assumes total: "\<And>s. nxt s \<noteq> None"
    and decr: "\<And>s x s'. I s \<Longrightarrow> nxt s = Some (Yield x s') \<Longrightarrow> I s' \<and> \<mu> s' < (\<mu> s :: nat)"
    and init: "I s"
  shows "\<exists>r. py_list nxt s = Some r"
  using init
proof (induction "\<mu> s" arbitrary: s rule: less_induct)
  case less
  from total [of s] obtain r where r: "nxt s = Some r" by auto
  show ?case
  proof (cases r)
    case StopIteration
    with r show ?thesis by (simp add: py_list_Stop)
  next
    case (Raise e)
    with r show ?thesis by (simp add: py_list_Raise)
  next
    case (Yield x s')
    with r have step: "nxt s = Some (Yield x s')" by simp
    from decr [OF less.prems step] have "I s'" "\<mu> s' < \<mu> s" by simp_all
    from less.hyps [OF this(2) this(1)] obtain r' where "py_list nxt s' = Some r'" by blast
    then show ?thesis using py_list_Yield [of nxt s x s'] step by simp
  qed
qed

text \<open>On operands that are not negative the truncating operations are the usual ones.\<close>

lemma sdiv_nonneg: "0 \<le> a \<Longrightarrow> 0 < b \<Longrightarrow> a sdiv b = a div (b::int)"
  by (simp add: signed_divide_int_def sgn_if)

lemma smod_nonneg: "0 \<le> a \<Longrightarrow> 0 < b \<Longrightarrow> a smod b = a mod (b::int)"
  by (simp add: smod_mod_positive)

section \<open>The claims\<close>

subsection \<open>Errors at the decoder boundary\<close>

text \<open>
  Claim C1: a read failure met during construction or validation is caught inside the
  decoder and turned into the invalid state; none leaves a constructor, in particular
  not from the deque decoder while it dereferences its block pointers.

  The deque constructor does not do this. Its \<^verbatim>\<open>try\<close> and \<^verbatim>\<open>except\<close> lines are commented
  out (lines 590, 606 and 607), unlike those of every other constructor. Take a deque with
  one block of four elements, one stored element and a map of one pointer at address 100
  that points to the unreadable address 200: the map is a valid split buffer, the checks of
  lines 591 to 594 pass, and formatting the dereferenced block pointer at line 598 raises
  \<^verbatim>\<open>gdb.MemoryError\<close>, which leaves the constructor.
\<close>

theorem deque_block_probe_escapes:
  "StdDequePrinter_init [100 \<mapsto> 200] ''std::deque''
     \<lparr>dq_block_size = 4, dq_map = \<lparr>sb_begin = 100, sb_end = 101, sb_end_cap = 101\<rparr>,
      dq_start = 0, dq_size = 1\<rparr> = Some (Inl MemoryError)"
  by (simp add: StdDequePrinter_init_def split_buffer_init split_buffer_children_def
      split_buffer_list fetch_def)

subsection \<open>The empty vector\<close>

text \<open>
  Claim C2: a vector whose begin, end and end-of-capacity pointers are equal has the
  summary \<^verbatim>\<open>empty vector (capacity=0)\<close> and exposes no element sequence.

  No element sequence is exposed, but the summary is \<^verbatim>\<open>empty\<close> for every such vector and
  every type name: \<^verbatim>\<open>to_string\<close> returns at its first test (line 438), and the branch
  that formats the capacity of an empty vector (line 453) is never reached.
\<close>

theorem vector_empty_summary:
  "vector_to_string (StdVectorPrinter_init m tn (Vector b b b)) = ''empty''
   \<and> \<not> vp_children (StdVectorPrinter_init m tn (Vector b b b))"
  by (simp add: StdVectorPrinter_init_def vector_to_string_def)

subsection \<open>The string decoder\<close>

lemma string_audit_ok: "string_audit m p sz = Inr () \<longleftrightarrow> m p \<noteq> None \<and> m (p + sz) \<noteq> None"
  by (auto simp: string_audit_def fetch_def split: option.splits)

lemma string_audit_cases: "(\<exists>e. string_audit m p sz = Inl e) \<longleftrightarrow> m p = None \<or> m (p + sz) = None"
  by (auto simp: string_audit_def fetch_def split: option.splits)

text \<open>
  Claim C3: the string decoder selects the representation by the low bit of the shared
  size field. If the bit is 0, the length is the stored size shifted right by one (its
  half, rounded down) and the data pointer is the address of the inline buffer; otherwise
  the length is the long representation's size field and the data pointer its pointer
  field.

  The first conjunct is the selection of lines 72 to 81; the second says that a passed
  audit leaves the selected length and pointer in the decoder.
\<close>

theorem string_representation_by_low_bit:
  "string_select v =
     (if \<not> bit (short_size v) 0 then (short_size v div 2, short_data v)
      else (long_size v, long_data v))
   \<and> (0 \<le> fst (string_select v)
        \<and> m (snd (string_select v)) \<noteq> None
        \<and> m (snd (string_select v) + fst (string_select v)) \<noteq> None
      \<longrightarrow> sp_size (StdStringPrinter_init m tn v) = fst (string_select v)
          \<and> sp_ptr (StdStringPrinter_init m tn v) = snd (string_select v))"
proof -
  have low: "short_size v AND 1 = 0 \<longleftrightarrow> \<not> bit (short_size v) 0"
    by (simp add: and_one_eq bit_0 mod_2_eq_odd)
  have sel: "string_select v =
     (if \<not> bit (short_size v) 0 then (short_size v div 2, short_data v)
      else (long_size v, long_data v))"
    unfolding string_select_def low by (simp add: drop_bit_eq_div)
  have "sp_size (StdStringPrinter_init m tn v) = fst (string_select v)
          \<and> sp_ptr (StdStringPrinter_init m tn v) = snd (string_select v)"
    if "0 \<le> fst (string_select v)" "m (snd (string_select v)) \<noteq> None"
       "m (snd (string_select v) + fst (string_select v)) \<noteq> None"
  proof -
    obtain sz p where sp: "string_select v = (sz, p)" by (cases "string_select v")
    with that have "string_audit m p sz = Inr ()" by (simp add: string_audit_ok)
    with sp that show ?thesis by (simp add: StdStringPrinter_init_def)
  qed
  with sel show ?thesis by blast
qed

theorem string_representation_by_low_bit_witness:
  "sp_size (StdStringPrinter_init [100 \<mapsto> CHR ''a'', 101 \<mapsto> CHR ''b'', 102 \<mapsto> CHR ''c'', 103 \<mapsto> CHR 0x00] ''std::basic_string''
      \<lparr>short_size = 6, short_data = 100, long_size = 0, long_data = 0\<rparr>) = 3
   \<and> sp_ptr (StdStringPrinter_init [100 \<mapsto> CHR ''a'', 101 \<mapsto> CHR ''b'', 102 \<mapsto> CHR ''c'', 103 \<mapsto> CHR 0x00] ''std::basic_string''
      \<lparr>short_size = 6, short_data = 100, long_size = 0, long_data = 0\<rparr>) = 100
   \<and> string_select \<lparr>short_size = 7, short_data = 100, long_size = 2, long_data = 500\<rparr> = (2, 500)"
  using string_representation_by_low_bit [of "\<lparr>short_size = 6, short_data = 100, long_size = 0, long_data = 0\<rparr>"
      "[100 \<mapsto> CHR ''a'', 101 \<mapsto> CHR ''b'', 102 \<mapsto> CHR ''c'', 103 \<mapsto> CHR 0x00]" "''std::basic_string''"]
    string_representation_by_low_bit [of "\<lparr>short_size = 7, short_data = 100, long_size = 2, long_data = 500\<rparr>" "Map.empty" "[]"]
  by (simp add: bit_0)

text \<open>
  What the audit decides, for a selected length that is not negative: the decoder is
  invalid if the cell at the data pointer or the cell \<^verbatim>\<open>self.size\<close> elements further
  cannot be read; otherwise it keeps length and pointer and gets its display hint.
\<close>

lemma string_audit_cells:
  assumes "string_select v = (sz, p)" and "0 \<le> sz"
  shows "if m p = None \<or> m (p + sz) = None
         then sp_size (StdStringPrinter_init m tn v) = - 1
              \<and> string_to_string m (StdStringPrinter_init m tn v) = ''invalid''
         else sp_size (StdStringPrinter_init m tn v) = sz
              \<and> sp_ptr (StdStringPrinter_init m tn v) = p
              \<and> sp_display_hint (StdStringPrinter_init m tn v)"
proof (cases "m p = None \<or> m (p + sz) = None")
  case True
  then obtain e where "string_audit m p sz = Inl e"
    using string_audit_cases [of m p sz] by blast
  with assms True show ?thesis
    by (simp add: StdStringPrinter_init_def string_to_string_def)
next
  case False
  then have "string_audit m p sz = Inr ()" by (simp add: string_audit_ok)
  with assms False show ?thesis by (simp add: StdStringPrinter_init_def)
qed

text \<open>
  Claim C8: the string decoder's validation reads the first and the last character of
  the decoded buffer through the accessor; if either read fails, the decoder's size
  becomes -1 and its summary is \<^verbatim>\<open>invalid\<close>.

  The audit does not read the last character. Its second read is at
  \<^verbatim>\<open>first_char_ptr + self.size\<close> (line 91), one cell past the last character, although
  the comment of lines 85 to 87 names the first and the last character and the audit of
  the vector reads the element at index \<^verbatim>\<open>size - 1\<close> (lines 413 to 415). Take a short
  string of length 3 at address 100 whose characters at 100 and 101 and whose cell 103
  can be read, and whose last character, at 102, cannot: the audit passes, the size stays
  3 and the decoder gets its display hint. Only \<^verbatim>\<open>to_string\<close>, which reads all three
  characters, fails and returns \<^verbatim>\<open>invalid\<close>.
\<close>

theorem string_audit_misses_last_character:
  "[100 \<mapsto> CHR ''a'', 101 \<mapsto> CHR ''b'', 103 \<mapsto> CHR 0x00] (102::int) = None
   \<and> sp_size (StdStringPrinter_init [100 \<mapsto> CHR ''a'', 101 \<mapsto> CHR ''b'', 103 \<mapsto> CHR 0x00]
        ''std::basic_string''
        \<lparr>short_size = 6, short_data = 100, long_size = 0, long_data = 0\<rparr>) = 3
   \<and> sp_display_hint (StdStringPrinter_init [100 \<mapsto> CHR ''a'', 101 \<mapsto> CHR ''b'', 103 \<mapsto> CHR 0x00]
        ''std::basic_string''
        \<lparr>short_size = 6, short_data = 100, long_size = 0, long_data = 0\<rparr>)
   \<and> string_to_string [100 \<mapsto> CHR ''a'', 101 \<mapsto> CHR ''b'', 103 \<mapsto> CHR 0x00]
       (StdStringPrinter_init [100 \<mapsto> CHR ''a'', 101 \<mapsto> CHR ''b'', 103 \<mapsto> CHR 0x00]
          ''std::basic_string''
          \<lparr>short_size = 6, short_data = 100, long_size = 0, long_data = 0\<rparr>) = ''invalid''"
proof -
  let ?m = "[100 \<mapsto> CHR ''a'', 101 \<mapsto> CHR ''b'', 103 \<mapsto> CHR 0x00]"
  let ?v = "\<lparr>short_size = 6, short_data = 100, long_size = 0, long_data = 0\<rparr>"
  have sel: "string_select ?v = (3, 100)" by (simp add: string_select_def)
  have init: "StdStringPrinter_init ?m ''std::basic_string'' ?v =
      \<lparr>sp_typename = ''std::basic_string'', sp_size = 3, sp_ptr = 100, sp_display_hint = True\<rparr>"
    by (simp add: StdStringPrinter_init_def sel string_audit_def fetch_def)
  show ?thesis
    unfolding init by (simp add: string_to_string_def numeral_3_eq_3 fetch_def)
qed

subsection \<open>The bit cursor of a vector of booleans\<close>

text \<open>
  One call of \<^verbatim>\<open>__next__\<close> on the bit cursor: bit \<open>i\<close> is bit \<open>i mod B\<close> of word
  \<open>i div B\<close>, and the cursor moves on to the position of bit \<open>i + 1\<close>.
\<close>

lemma bit_cursor_step:
  assumes B: "0 < B" and rd: "m (b + int (i div B)) = Some w" and ne: "int i \<noteq> n"
  shows "vector_next m \<lparr>vi_bitvec = True, vi_item = b + int (i div B), vi_so = i mod B,
             vi_size = n, vi_bits_per_word = int B, vi_finish = 0, vi_count = int i\<rparr> =
         Yield (label (int i), PyBool (bit w (i mod B)))
           \<lparr>vi_bitvec = True, vi_item = b + int (Suc i div B), vi_so = Suc i mod B,
             vi_size = n, vi_bits_per_word = int B, vi_finish = 0, vi_count = int (Suc i)\<rparr>"
proof -
  have lt: "i mod B < B" using B by simp
  have obit: "(w AND push_bit (i mod B) 1 \<noteq> 0) = bit w (i mod B)"
    by (simp add: bit_iff_and_push_bit_not_eq_0)
  show ?thesis
  proof (cases "Suc (i mod B) = B")
    case True
    then have "Suc i mod B = 0" "Suc i div B = Suc (i div B)"
      by (simp_all add: mod_Suc div_Suc)
    with True rd ne obit show ?thesis
      by (simp add: vector_next_def fetch_def Let_def)
  next
    case False
    with lt have "Suc (i mod B) < B" by simp
    then have "Suc i mod B = Suc (i mod B)" "Suc i div B = i div B"
      by (simp_all add: mod_Suc div_Suc)
    with False \<open>Suc (i mod B) < B\<close> rd ne obit show ?thesis
      by (simp add: vector_next_def fetch_def Let_def)
  qed
qed

lemma bit_vector_valid:
  assumes bpw: "0 < (case w of None \<Rightarrow> 64 | Some k \<Rightarrow> k)"
    and n: "0 < n" "n \<le> (c * (case w of None \<Rightarrow> 64 | Some k \<Rightarrow> k)) mod 2 ^ 64"
    and rd: "\<forall>i<nat n. m (b + int (i div nat (case w of None \<Rightarrow> 64 | Some k \<Rightarrow> k)))
               = Some (ws (i div nat (case w of None \<Rightarrow> 64 | Some k \<Rightarrow> k)))"
  shows "vp_children (StdVectorPrinter_init m tn (VectorBool b n c w))
         \<and> vp_size (StdVectorPrinter_init m tn (VectorBool b n c w)) = n"
proof -
  define B where "B = nat (case w of None \<Rightarrow> 64 | Some k \<Rightarrow> k)"
  have B: "0 < B" "(case w of None \<Rightarrow> 64 | Some k \<Rightarrow> k) = int B"
    using bpw by (simp_all add: B_def)
  have rd': "\<forall>i<nat n. m (b + int (i div B)) = Some (ws (i div B))"
    using rd by (simp add: B_def)
  have front: "m b = Some (ws 0)" using rd' [rule_format, of 0] n B by simp
  have "(n - 1) sdiv int B = (n - 1) div int B" using n B by (simp add: sdiv_nonneg)
  also have "\<dots> = int ((nat n - 1) div B)" using n by (simp add: zdiv_int nat_diff_distrib)
  finally have idx: "(n - 1) sdiv int B = int ((nat n - 1) div B)" .
  have bk: "m (b + (n - 1) sdiv int B) = Some (ws ((nat n - 1) div B))"
    unfolding idx using rd' [rule_format, of "nat n - 1"] n by simp
  have "vector_audit m (VectorBool b n c w) (int B) n = Inr ()"
    using B front bk by (simp add: vector_audit_def fetch_def)
  then show ?thesis using n by (simp add: StdVectorPrinter_init_def Let_def B(2))
qed

lemma bit_vector_list:
  assumes bpw: "0 < (case w of None \<Rightarrow> 64 | Some k \<Rightarrow> k)"
    and n: "0 \<le> n"
    and rd: "\<forall>i<nat n. m (b + int (i div nat (case w of None \<Rightarrow> 64 | Some k \<Rightarrow> k)))
               = Some (ws (i div nat (case w of None \<Rightarrow> 64 | Some k \<Rightarrow> k)))"
  shows "py_list (\<lambda>s. Some (vector_next m s))
           (vector_children (StdVectorPrinter_init m tn (VectorBool b n c w))) =
         Some (Inr (map (\<lambda>i. (label (int i),
                      PyBool (bit (ws (i div nat (case w of None \<Rightarrow> 64 | Some k \<Rightarrow> k)))
                                  (i mod nat (case w of None \<Rightarrow> 64 | Some k \<Rightarrow> k)))))
                    [0..<nat n]))"
proof -
  define B where "B = nat (case w of None \<Rightarrow> 64 | Some k \<Rightarrow> k)"
  have B: "0 < B" "int B = (case w of None \<Rightarrow> 64 | Some k \<Rightarrow> k)"
    using bpw by (simp_all add: B_def)
  let ?f = "\<lambda>i. \<lparr>vi_bitvec = True, vi_item = b + int (i div B), vi_so = i mod B,
             vi_size = n, vi_bits_per_word = int B, vi_finish = 0, vi_count = int i\<rparr>"
  have start: "vector_children (StdVectorPrinter_init m tn (VectorBool b n c w)) = ?f 0"
    by (simp add: vector_children_def StdVectorPrinter_init_def Let_def B(2) split: sum.splits)
  have steps: "(\<lambda>s. Some (vector_next m s)) (?f i) =
        Some (Yield (label (int i), PyBool (bit (ws (i div B)) (i mod B))) (?f (Suc i)))"
    if "i < nat n" for i
  proof -
    from that rd have "m (b + int (i div B)) = Some (ws (i div B))" by (simp add: B_def)
    moreover from that have "int i \<noteq> n" by linarith
    ultimately show ?thesis using bit_cursor_step [OF B(1)] by simp
  qed
  have stop: "(\<lambda>s. Some (vector_next m s)) (?f (nat n)) = Some StopIteration"
    using n by (simp add: vector_next_def)
  have "py_list (\<lambda>s. Some (vector_next m s)) (?f 0) =
          Some (Inr (map (\<lambda>i. (label (int i), PyBool (bit (ws (i div B)) (i mod B)))) [0..<nat n]))"
    by (rule py_list_steps [where f = ?f, OF steps stop])
  then show ?thesis unfolding start B_def .
qed

text \<open>
  Claim C7: the element cursor of a bit-packed vector yields one bit per step, advancing
  the bit offset within the current storage word and moving to the next word exactly
  every \<^verbatim>\<open>bits_per_word\<close> bits, where \<^verbatim>\<open>bits_per_word\<close> is 64 when the field is optimised
  out; for a vector of 65 bits with 64-bit words and bits 0 and 64 set, the sequence is
  true at indices 0 and 64 and false at indices 1 to 63.

  For a word width \<open>B > 0\<close>, a stored bit count \<open>n > 0\<close> within the capacity (the product
  of the capacity field and \<open>B\<close> as the debugger computes it, modulo \<open>2 ^ 64\<close>) and
  readable words \<open>ws 0\<close>, \<open>ws 1\<close>, ... from \<^verbatim>\<open>__begin_\<close> on, the decoder exposes its
  children, and the list of the element sequence has \<open>n\<close> entries, entry \<open>i\<close> labelled
  \<^verbatim>\<open>[i]\<close> and holding bit \<open>i mod B\<close> of word \<open>i div B\<close>. The scenario of 65 bits is the
  instance below.
\<close>

theorem bit_vector_elements:
  assumes "0 < (case w of None \<Rightarrow> 64 | Some k \<Rightarrow> k)"
    and "0 < n" and "n \<le> (c * (case w of None \<Rightarrow> 64 | Some k \<Rightarrow> k)) mod 2 ^ 64"
    and "\<forall>i<nat n. m (b + int (i div nat (case w of None \<Rightarrow> 64 | Some k \<Rightarrow> k)))
               = Some (ws (i div nat (case w of None \<Rightarrow> 64 | Some k \<Rightarrow> k)))"
  shows "vp_children (StdVectorPrinter_init m tn (VectorBool b n c w))
         \<and> vp_size (StdVectorPrinter_init m tn (VectorBool b n c w)) = n
         \<and> py_list (\<lambda>s. Some (vector_next m s))
              (vector_children (StdVectorPrinter_init m tn (VectorBool b n c w))) =
            Some (Inr (map (\<lambda>i. (label (int i),
                         PyBool (bit (ws (i div nat (case w of None \<Rightarrow> 64 | Some k \<Rightarrow> k)))
                                     (i mod nat (case w of None \<Rightarrow> 64 | Some k \<Rightarrow> k)))))
                       [0..<nat n]))"
  using bit_vector_valid [OF assms] bit_vector_list [OF assms(1) _ assms(4), of tn c] assms(2)
  by simp

theorem bit_vector_elements_witness:
  "vp_children (StdVectorPrinter_init [1000 \<mapsto> 1, 1001 \<mapsto> 1] ''std::vector''
        (VectorBool 1000 65 2 None))
   \<and> py_list (\<lambda>s. Some (vector_next [1000 \<mapsto> 1, 1001 \<mapsto> 1] s))
     (vector_children (StdVectorPrinter_init [1000 \<mapsto> 1, 1001 \<mapsto> 1] ''std::vector''
        (VectorBool 1000 65 2 None))) =
   Some (Inr (map (\<lambda>i. (label (int i), PyBool (i = 0 \<or> i = 64))) [0..<65]))"
proof -
  have bits: "bit (1::int) (i mod 64) = (i = 0 \<or> i = 64)" if "i < 65" for i :: nat
  proof -
    have "bit (1::int) (i mod 64) \<longleftrightarrow> i mod 64 = 0" by (simp add: bit_1_iff)
    also have "\<dots> \<longleftrightarrow> i = 0 \<or> i = 64" using that by presburger
    finally show ?thesis .
  qed
  have same: "map (\<lambda>i. (label (int i), PyBool (bit (1::int) (i mod 64)))) [0..<65] =
             map (\<lambda>i. (label (int i), PyBool (i = 0 \<or> i = 64))) [0..<65]"
    by (rule map_cong) (simp_all add: bits)
  have "vp_children (StdVectorPrinter_init [1000 \<mapsto> 1, 1001 \<mapsto> 1] ''std::vector''
        (VectorBool 1000 65 2 None))
     \<and> py_list (\<lambda>s. Some (vector_next [1000 \<mapsto> 1, 1001 \<mapsto> 1] s))
     (vector_children (StdVectorPrinter_init [1000 \<mapsto> 1, 1001 \<mapsto> 1] ''std::vector''
        (VectorBool 1000 65 2 None))) =
     Some (Inr (map (\<lambda>i. (label (int i), PyBool (bit (1::int) (i mod 64)))) [0..<65]))"
    using bit_vector_elements [of None 65 2 "[1000 \<mapsto> 1, 1001 \<mapsto> 1]" 1000 "\<lambda>_. 1" "''std::vector''"]
    by (auto simp: less_Suc_eq_le)
  then show ?thesis unfolding same .
qed

subsection \<open>The deque decoder\<close>

lemma deque_next_Yield:
  assumes "deque_next m it = Yield x it'"
  shows "it' = it\<lparr>di_count := di_count it + 1\<rparr>
         \<and> (\<exists>blk. m (di_map_begin it + (di_start it + di_count it) sdiv di_block_size it) = Some blk
              \<and> x = (label (di_count it),
                     LazyAt (blk + (di_start it + di_count it) smod di_block_size it)))"
  using assms
  by (auto simp: deque_next_def Let_def fetch_def split: if_splits option.splits)

lemma deque_trace_count:
  assumes "f 0 = it"
    and "\<forall>i<n. deque_next m (f i) = Yield (xs ! i) (f (Suc i))"
    and "i \<le> n"
  shows "f i = it\<lparr>di_count := di_count it + int i\<rparr>"
  using assms(3)
proof (induction i)
  case 0
  then show ?case using assms(1) by simp
next
  case (Suc i)
  then have fi: "f i = it\<lparr>di_count := di_count it + int i\<rparr>" by simp
  from Suc.prems assms(2) have "deque_next m (f i) = Yield (xs ! i) (f (Suc i))"
    by (simp add: Suc_le_eq)
  from deque_next_Yield [OF this] show ?case by (simp add: fi)
qed

lemma deque_list_nth:
  assumes run: "py_list (\<lambda>s. Some (deque_next m s)) it = Some (Inr xs)" and i: "i < length xs"
  shows "\<exists>blk. m (di_map_begin it + (di_start it + di_count it + int i) sdiv di_block_size it) = Some blk
           \<and> xs ! i = (label (di_count it + int i),
                  LazyAt (blk + (di_start it + di_count it + int i) smod di_block_size it))"
proof -
  from py_list_trace [OF run] obtain f where f: "f 0 = it"
    "\<forall>i<length xs. deque_next m (f i) = Yield (xs ! i) (f (Suc i))" by auto
  from deque_trace_count [OF f(1) f(2), of i] i
  have fi: "f i = it\<lparr>di_count := di_count it + int i\<rparr>" by simp
  from f(2) i have "deque_next m (f i) = Yield (xs ! i) (f (Suc i))" by simp
  from deque_next_Yield [OF this] show ?thesis by (simp add: fi add.assoc)
qed

lemma deque_init_valid:
  assumes "StdDequePrinter_init m tn val = Some (Inr p)" and "dp_children p"
  shows "0 < dq_size val \<and> dq_start val < dq_block_size val
         \<and> dp_size p = dq_size val
         \<and> deque_children p =
             \<lparr>di_count = 0, di_size = dq_size val, di_block_size = dq_block_size val,
              di_start = dq_start val, di_map_begin = sb_begin (dq_map val),
              di_map_end = sb_end (dq_map val)\<rparr>
         \<and> (\<exists>xs. py_list (\<lambda>s. Some (deque_next m s)) (deque_children p) = Some (Inr xs)
                \<and> int (length xs) = dq_size val)"
  using assms
  by (auto simp: StdDequePrinter_init_def split_buffer_init split_buffer_children_def
      split_buffer_list Let_def deque_children_def
      split: if_splits option.splits sum.splits)

text \<open>The deque constructor always returns: both of its loops are bounded.\<close>

lemma deque_list_terminates: "py_list (\<lambda>s. Some (deque_next m s)) it \<noteq> None"
proof -
  have "\<exists>r. py_list (\<lambda>s. Some (deque_next m s)) it = Some r"
    by (rule py_list_terminates
          [where \<mu> = "\<lambda>s. nat (di_size s - di_count s)" and I = "\<lambda>s. True"])
       (auto simp: deque_next_def Let_def split: if_splits sum.splits)
  then show ?thesis by auto
qed

lemma deque_init_total: "StdDequePrinter_init m tn val \<noteq> None"
  by (auto simp: StdDequePrinter_init_def split_buffer_init split_buffer_list
      split_buffer_children_def Let_def deque_list_terminates split: sum.splits option.splits)

text \<open>
  Claim C4: for every valid deque with block size \<open>B\<close>, start offset \<open>S\<close> and every index
  \<open>i\<close> below its element count, the element the deque iterator produces at position \<open>i\<close> is
  the one found by direct indexing: dereference the block pointer at map index
  \<open>(S + i) div B\<close> and go \<open>(S + i) mod B\<close> elements further.

  A valid deque is one whose constructor returned a decoder that exposes its children.
  The start offset is an unsigned field of the container, hence \<open>0 \<le> S\<close>. The element
  sequence then has as many entries as the stored count, and entry \<open>i\<close> is labelled
  \<^verbatim>\<open>[i]\<close> and is the handle at that address.
\<close>

theorem deque_index_law:
  assumes "StdDequePrinter_init m tn val = Some (Inr p)" and "dp_children p"
    and "0 \<le> dq_start val" and "i < nat (dp_size p)"
  shows "\<exists>xs blk. py_list (\<lambda>s. Some (deque_next m s)) (deque_children p) = Some (Inr xs)
           \<and> int (length xs) = dp_size p
           \<and> m (sb_begin (dq_map val) + (dq_start val + int i) div dq_block_size val) = Some blk
           \<and> xs ! i = (label (int i), LazyAt (blk + (dq_start val + int i) mod dq_block_size val))"
proof -
  from deque_init_valid [OF assms(1,2)] obtain xs where
    v: "dq_start val < dq_block_size val" "dp_size p = dq_size val"
    and it: "deque_children p =
             \<lparr>di_count = 0, di_size = dq_size val, di_block_size = dq_block_size val,
              di_start = dq_start val, di_map_begin = sb_begin (dq_map val),
              di_map_end = sb_end (dq_map val)\<rparr>"
    and run: "py_list (\<lambda>s. Some (deque_next m s)) (deque_children p) = Some (Inr xs)"
    and len: "int (length xs) = dq_size val"
    by blast
  from assms(4) v(2) len have i: "i < length xs" by simp
  from deque_list_nth [OF run i] obtain blk where
    blk: "m (sb_begin (dq_map val) + (dq_start val + int i) sdiv dq_block_size val) = Some blk"
    and x: "xs ! i = (label (int i), LazyAt (blk + (dq_start val + int i) smod dq_block_size val))"
    by (auto simp: it)
  have pos: "0 \<le> dq_start val + int i" "0 < dq_block_size val"
    using assms(3) v(1) by simp_all
  from blk x run len v(2) show ?thesis
    by (simp add: sdiv_nonneg [OF pos] smod_nonneg [OF pos])
qed

theorem deque_index_law_witness:
  "StdDequePrinter_init [100 \<mapsto> 200, 101 \<mapsto> 300, 200 \<mapsto> 7, 300 \<mapsto> 8] ''std::deque''
     \<lparr>dq_block_size = 2, dq_map = \<lparr>sb_begin = 100, sb_end = 102, sb_end_cap = 102\<rparr>,
      dq_start = 1, dq_size = 3\<rparr> =
   Some (Inr \<lparr>dp_typename = ''std::deque'', dp_block_size = 2,
              dp_blocks = \<lparr>sbp_begin = 100, sbp_end = 102, sbp_end_cap = 102, sbp_size = 2,
                           sbp_capacity = 2, sbp_children = True\<rparr>,
              dp_start = 1, dp_size = 3, dp_capacity = 4, dp_children = True\<rparr>)
   \<and> (\<exists>xs. py_list (\<lambda>s. Some (deque_next [100 \<mapsto> 200, 101 \<mapsto> 300, 200 \<mapsto> 7, 300 \<mapsto> 8] s))
          \<lparr>di_count = 0, di_size = 3, di_block_size = 2, di_start = 1, di_map_begin = 100,
           di_map_end = 102\<rparr> = Some (Inr xs)
        \<and> length xs = 3 \<and> xs ! 1 = (label 1, LazyAt 300))"
proof -
  let ?m = "[100 \<mapsto> 200, 101 \<mapsto> 300, 200 \<mapsto> 7, 300 \<mapsto> (8::int)]"
  let ?val = "\<lparr>dq_block_size = 2, dq_map = \<lparr>sb_begin = 100, sb_end = 102, sb_end_cap = 102\<rparr>,
               dq_start = 1, dq_size = 3\<rparr>"
  let ?blocks = "\<lparr>sbp_begin = 100, sbp_end = 102, sbp_end_cap = 102, sbp_size = 2,
                  sbp_capacity = 2, sbp_children = True\<rparr>"
  let ?p = "\<lparr>dp_typename = ''std::deque'', dp_block_size = 2, dp_blocks = ?blocks,
             dp_start = 1, dp_size = 3, dp_capacity = 4, dp_children = True\<rparr>"
  have ptrs: "[0..<2] = [0, 1::nat]" by code_simp
  have run: "py_list (\<lambda>s. Some (deque_next ?m s))
       \<lparr>di_count = 0, di_size = 3, di_block_size = 2, di_start = 1, di_map_begin = 100,
        di_map_end = 102\<rparr> =
      Some (Inr [(label 0, LazyAt 201), (label 1, LazyAt 300), (label 2, LazyAt 301)])"
    by (simp add: py_list.simps deque_next_def fetch_def cons_result_def
        signed_divide_int_def signed_modulo_int_def)
  have init: "StdDequePrinter_init ?m ''std::deque'' ?val = Some (Inr ?p)"
    by (simp add: StdDequePrinter_init_def split_buffer_init split_buffer_children_def
        split_buffer_list fetch_def ptrs deque_children_def run Let_def)
  from deque_index_law [OF init, of 1] init show ?thesis
    by (simp add: deque_children_def)
qed

subsection \<open>The list decoder\<close>

text \<open>
  The traversal of a list, for any run of \<open>k\<close> readable nodes \<open>a 0\<close>, ..., \<open>a (k - 1)\<close>
  linked from the sentinel's next pointer, none of them the sentinel, with \<open>k\<close> within
  the count \<open>n\<close> the iterator was made with: the iterator passes through them in order.
\<close>

lemma list_steps:
  assumes "\<forall>i<k. a i \<noteq> h \<and> (\<exists>node. m (a i) = Some node \<and> ln_next node = a (Suc i))"
    and "int k \<le> n" and "i < k"
  shows "list_next m \<lparr>li_head = h, li_base = a i, li_num_nodes = n, li_count = int i\<rparr> =
         Yield (label (int i), LazyAt (a i))
           \<lparr>li_head = h, li_base = a (Suc i), li_num_nodes = n, li_count = int (Suc i)\<rparr>"
proof -
  from assms(1,3) obtain node where "a i \<noteq> h" "m (a i) = Some node" "ln_next node = a (Suc i)"
    by blast
  moreover from assms(2,3) have "int i \<noteq> n" by linarith
  ultimately show ?thesis by (simp add: list_next_def fetch_def)
qed

lemma list_run_stops:
  assumes "\<forall>i<k. a i \<noteq> h \<and> (\<exists>node. m (a i) = Some node \<and> ln_next node = a (Suc i))"
    and "int k \<le> n" and "a k = h \<or> int k = n"
  shows "py_list (\<lambda>s. Some (list_next m s))
           \<lparr>li_head = h, li_base = a 0, li_num_nodes = n, li_count = 0\<rparr> =
         Some (Inr (map (\<lambda>i. (label (int i), LazyAt (a i))) [0..<k]))"
proof -
  let ?f = "\<lambda>i. \<lparr>li_head = h, li_base = a i, li_num_nodes = n, li_count = int i\<rparr>"
  have stop: "(\<lambda>s. Some (list_next m s)) (?f k) = Some StopIteration"
    using assms(3) by (auto simp: list_next_def)
  have "py_list (\<lambda>s. Some (list_next m s)) (?f 0) =
          Some (Inr (map (\<lambda>i. (label (int i), LazyAt (a i))) [0..<k]))"
  proof (rule py_list_steps
      [where f = ?f and n = k and nxt = "\<lambda>s. Some (list_next m s)"
         and x = "\<lambda>i. (label (int i), LazyAt (a i))"])
    show "\<And>i. i < k \<Longrightarrow> Some (list_next m (?f i)) =
            Some (Yield (label (int i), LazyAt (a i)) (?f (Suc i)))"
      by (simp only: list_steps [OF assms(1,2)])
    show "Some (list_next m (?f k)) = Some StopIteration" by (rule stop)
  qed
  then show ?thesis by simp
qed

lemma list_run_raises:
  assumes "\<forall>i<k. a i \<noteq> h \<and> (\<exists>node. m (a i) = Some node \<and> ln_next node = a (Suc i))"
    and "int k \<le> n" and "a k \<noteq> h" and "int k \<noteq> n" and "m (a k) = None"
  shows "py_list (\<lambda>s. Some (list_next m s))
           \<lparr>li_head = h, li_base = a 0, li_num_nodes = n, li_count = 0\<rparr> =
         Some (Inl MemoryError)"
proof -
  let ?f = "\<lambda>i. \<lparr>li_head = h, li_base = a i, li_num_nodes = n, li_count = int i\<rparr>"
  have stop: "(\<lambda>s. Some (list_next m s)) (?f k) = Some (Raise MemoryError)"
    using assms(3,4,5) by (simp add: list_next_def fetch_def)
  have "py_list (\<lambda>s. Some (list_next m s)) (?f 0) = Some (Inl MemoryError)"
  proof (rule py_list_steps_raise
      [where f = ?f and n = k and nxt = "\<lambda>s. Some (list_next m s)"
         and x = "\<lambda>i. (label (int i), LazyAt (a i))"])
    show "\<And>i. i < k \<Longrightarrow> Some (list_next m (?f i)) =
            Some (Yield (label (int i), LazyAt (a i)) (?f (Suc i)))"
      by (simp only: list_steps [OF assms(1,2)])
    show "Some (list_next m (?f k)) = Some (Raise MemoryError)" by (rule stop)
  qed
  then show ?thesis by simp
qed

text \<open>
  Claim C5: the list iterator starts at the sentinel's next pointer and advances via each
  node's next link, stopping at whichever comes first of returning to the sentinel or
  reaching the stored count; if the traversal's natural termination count differs from
  the stored size field, the decoder marks itself invalid (size -1, summary
  \<^verbatim>\<open>invalid\<close>).

  The second half does not hold when the chain is longer than the stored size. Take a
  sentinel at 10 and the chain 20, 30 that returns to the sentinel after two nodes, with
  stored size 1: the traversal stops at the stored count, the number of its elements is
  the stored size, and the decoder is valid with length 1.
\<close>

theorem list_longer_chain_is_valid:
  "list_chain [20 \<mapsto> \<lparr>ln_prev = 10, ln_next = 30\<rparr>, 30 \<mapsto> \<lparr>ln_prev = 20, ln_next = 10\<rparr>] 20 (Suc 0)
     = Some 30
   \<and> list_chain [20 \<mapsto> \<lparr>ln_prev = 10, ln_next = 30\<rparr>, 30 \<mapsto> \<lparr>ln_prev = 20, ln_next = 10\<rparr>] 20
       (Suc (Suc 0)) = Some 10
   \<and> StdListPrinter_init [20 \<mapsto> \<lparr>ln_prev = 10, ln_next = 30\<rparr>, 30 \<mapsto> \<lparr>ln_prev = 20, ln_next = 10\<rparr>]
       ''std::list'' \<lparr>l_end_address = 10, l_end_next = 20, l_size_alloc = 1\<rparr> =
     Some \<lparr>lp_typename = ''std::list'',
           lp_val = \<lparr>l_end_address = 10, l_end_next = 20, l_size_alloc = 1\<rparr>,
           lp_size = 1, lp_children = True\<rparr>
   \<and> list_to_string \<lparr>lp_typename = ''std::list'',
           lp_val = \<lparr>l_end_address = 10, l_end_next = 20, l_size_alloc = 1\<rparr>,
           lp_size = 1, lp_children = True\<rparr> = ''std::list (length=1)''"
proof -
  let ?m = "[20 \<mapsto> \<lparr>ln_prev = 10, ln_next = 30\<rparr>, 30 \<mapsto> \<lparr>ln_prev = 20, ln_next = 10\<rparr>]"
  have run: "py_list (\<lambda>s. Some (list_next ?m s))
       \<lparr>li_head = 10, li_base = 20, li_num_nodes = 1, li_count = 0\<rparr> =
     Some (Inr [(label 0, LazyAt 20)])"
    by (simp add: py_list.simps list_next_def fetch_def cons_result_def)
  show ?thesis
    by (simp add: StdListPrinter_init_def list_children_def run list_to_string_def fmt_d_def)
qed

text \<open>
  Claim C5 as amended: the list iterator starts at the sentinel's next pointer and
  advances via each node's next link, stopping at whichever comes first of returning to
  the sentinel or reaching the stored count. If it returns to the sentinel before the
  stored count is reached, or meets a node it cannot read, the decoder marks itself
  invalid (size -1, summary \<^verbatim>\<open>invalid\<close>, no children). If the stored count is reached
  first or at the return to the sentinel, the decoder is valid with the stored count as
  its length, whether or not the chain goes on.

  Here \<open>a 0\<close>, ..., \<open>a (k - 1)\<close> are the first \<open>k\<close> nodes of the chain, readable and none
  of them the sentinel, and \<open>k\<close> is within the stored size. The first part is the
  traversal that ends at position \<open>k\<close>; the second is the traversal that finds the node at
  position \<open>k\<close> unreadable.
\<close>

theorem list_traversal:
  assumes "a 0 = l_end_next val"
    and "\<forall>i<k. a i \<noteq> l_end_address val
           \<and> (\<exists>node. m (a i) = Some node \<and> ln_next node = a (Suc i))"
    and "int k \<le> l_size_alloc val"
  shows "(a k = l_end_address val \<or> int k = l_size_alloc val \<longrightarrow>
           py_list (\<lambda>s. Some (list_next m s))
             \<lparr>li_head = l_end_address val, li_base = l_end_next val,
              li_num_nodes = l_size_alloc val, li_count = 0\<rparr> =
           Some (Inr (map (\<lambda>i. (label (int i), LazyAt (a i))) [0..<k]))
           \<and> StdListPrinter_init m tn val =
               Some \<lparr>lp_typename = tn, lp_val = val,
                     lp_size = (if int k = l_size_alloc val then l_size_alloc val else - 1),
                     lp_children = (int k = l_size_alloc val \<and> 0 < k)\<rparr>
           \<and> list_to_string
                 \<lparr>lp_typename = tn, lp_val = val,
                  lp_size = (if int k = l_size_alloc val then l_size_alloc val else - 1),
                  lp_children = (int k = l_size_alloc val \<and> 0 < k)\<rparr> =
               (if int k \<noteq> l_size_alloc val then ''invalid''
                else if k = 0 then ''empty''
                else tn @ '' (length='' @ fmt_d (l_size_alloc val) @ '')''))
         \<and> (a k \<noteq> l_end_address val \<and> int k \<noteq> l_size_alloc val \<and> m (a k) = None \<longrightarrow>
           py_list (\<lambda>s. Some (list_next m s))
             \<lparr>li_head = l_end_address val, li_base = l_end_next val,
              li_num_nodes = l_size_alloc val, li_count = 0\<rparr> = Some (Inl MemoryError)
           \<and> StdListPrinter_init m tn val =
               Some \<lparr>lp_typename = tn, lp_val = val, lp_size = - 1, lp_children = False\<rparr>
           \<and> list_to_string
                 \<lparr>lp_typename = tn, lp_val = val, lp_size = - 1, lp_children = False\<rparr> =
               ''invalid'')"
proof (intro conjI impI)
  let ?it = "\<lparr>li_head = l_end_address val, li_base = l_end_next val,
              li_num_nodes = l_size_alloc val, li_count = 0\<rparr>"
  have ch: "list_children \<lparr>lp_typename = tn, lp_val = val, lp_size = l_size_alloc val,
              lp_children = False\<rparr> = ?it"
    by (simp add: list_children_def)
  {
    assume stop: "a k = l_end_address val \<or> int k = l_size_alloc val"
    from list_run_stops [OF assms(2,3) stop] assms(1)
    show run: "py_list (\<lambda>s. Some (list_next m s)) ?it =
           Some (Inr (map (\<lambda>i. (label (int i), LazyAt (a i))) [0..<k]))" by simp
    show "StdListPrinter_init m tn val =
               Some \<lparr>lp_typename = tn, lp_val = val,
                     lp_size = (if int k = l_size_alloc val then l_size_alloc val else - 1),
                     lp_children = (int k = l_size_alloc val \<and> 0 < k)\<rparr>"
      by (auto simp: StdListPrinter_init_def ch run Let_def)
    show "list_to_string
                 \<lparr>lp_typename = tn, lp_val = val,
                  lp_size = (if int k = l_size_alloc val then l_size_alloc val else - 1),
                  lp_children = (int k = l_size_alloc val \<and> 0 < k)\<rparr> =
               (if int k \<noteq> l_size_alloc val then ''invalid''
                else if k = 0 then ''empty''
                else tn @ '' (length='' @ fmt_d (l_size_alloc val) @ '')'')"
      by (auto simp: list_to_string_def)
  }
  {
    assume bad: "a k \<noteq> l_end_address val \<and> int k \<noteq> l_size_alloc val \<and> m (a k) = None"
    from list_run_raises [OF assms(2,3)] bad assms(1)
    show run: "py_list (\<lambda>s. Some (list_next m s)) ?it = Some (Inl MemoryError)" by simp
    show "StdListPrinter_init m tn val =
               Some \<lparr>lp_typename = tn, lp_val = val, lp_size = - 1, lp_children = False\<rparr>"
      by (simp add: StdListPrinter_init_def ch run)
    show "list_to_string
                 \<lparr>lp_typename = tn, lp_val = val, lp_size = - 1, lp_children = False\<rparr> =
               ''invalid''"
      by (simp add: list_to_string_def)
  }
qed

text \<open>
  The theorem at a sentinel at 10 with the chain 20, 30 back to the sentinel: with stored
  size 2 the list is valid and its two nodes are the elements; with stored size 3 the
  traversal returns to the sentinel too early and the list is invalid; and with stored
  size 2 and the node at 30 unreadable the list is invalid.
\<close>

theorem list_traversal_witness:
  "py_list (\<lambda>s. Some (list_next
        [20 \<mapsto> \<lparr>ln_prev = 10, ln_next = 30\<rparr>, 30 \<mapsto> \<lparr>ln_prev = 20, ln_next = 10\<rparr>] s))
      \<lparr>li_head = 10, li_base = 20, li_num_nodes = 2, li_count = 0\<rparr> =
    Some (Inr [(''[0]'', LazyAt 20), (''[1]'', LazyAt 30)])
   \<and> StdListPrinter_init
        [20 \<mapsto> \<lparr>ln_prev = 10, ln_next = 30\<rparr>, 30 \<mapsto> \<lparr>ln_prev = 20, ln_next = 10\<rparr>]
        ''std::list'' \<lparr>l_end_address = 10, l_end_next = 20, l_size_alloc = 2\<rparr> =
      Some \<lparr>lp_typename = ''std::list'',
            lp_val = \<lparr>l_end_address = 10, l_end_next = 20, l_size_alloc = 2\<rparr>,
            lp_size = 2, lp_children = True\<rparr>
   \<and> list_to_string \<lparr>lp_typename = ''std::list'',
            lp_val = \<lparr>l_end_address = 10, l_end_next = 20, l_size_alloc = 2\<rparr>,
            lp_size = 2, lp_children = True\<rparr> = ''std::list (length=2)''
   \<and> StdListPrinter_init
        [20 \<mapsto> \<lparr>ln_prev = 10, ln_next = 30\<rparr>, 30 \<mapsto> \<lparr>ln_prev = 20, ln_next = 10\<rparr>]
        ''std::list'' \<lparr>l_end_address = 10, l_end_next = 20, l_size_alloc = 3\<rparr> =
      Some \<lparr>lp_typename = ''std::list'',
            lp_val = \<lparr>l_end_address = 10, l_end_next = 20, l_size_alloc = 3\<rparr>,
            lp_size = - 1, lp_children = False\<rparr>
   \<and> list_to_string \<lparr>lp_typename = ''std::list'',
            lp_val = \<lparr>l_end_address = 10, l_end_next = 20, l_size_alloc = 3\<rparr>,
            lp_size = - 1, lp_children = False\<rparr> = ''invalid''
   \<and> StdListPrinter_init [20 \<mapsto> \<lparr>ln_prev = 10, ln_next = 30\<rparr>]
        ''std::list'' \<lparr>l_end_address = 10, l_end_next = 20, l_size_alloc = 2\<rparr> =
      Some \<lparr>lp_typename = ''std::list'',
            lp_val = \<lparr>l_end_address = 10, l_end_next = 20, l_size_alloc = 2\<rparr>,
            lp_size = - 1, lp_children = False\<rparr>"
proof -
  let ?a = "\<lambda>i::nat. if i = 0 then 20 else if i = 1 then 30 else (10::int)"
  let ?m = "[20 \<mapsto> \<lparr>ln_prev = 10, ln_next = 30\<rparr>, 30 \<mapsto> \<lparr>ln_prev = 20, ln_next = 10::int\<rparr>]"
  let ?m' = "[20 \<mapsto> \<lparr>ln_prev = 10, ln_next = 30::int\<rparr>]"
  have upt2: "[0..<2] = [0, 1::nat]" by code_simp
  have lab: "label 0 = ''[0]''" "label 1 = ''[1]''" by (simp_all add: label_def fmt_d_def)
  have f2: "fmt_d 2 = ''2''" by (simp add: fmt_d_def)
  have c2: "\<forall>i<2. ?a i \<noteq> 10 \<and> (\<exists>node. ?m (?a i) = Some node \<and> ln_next node = ?a (Suc i))"
    by (auto simp: less_Suc_eq numeral_2_eq_2)
  have c1: "\<forall>i<1. ?a i \<noteq> 10 \<and> (\<exists>node. ?m' (?a i) = Some node \<and> ln_next node = ?a (Suc i))"
    by auto
  have A: "py_list (\<lambda>s. Some (list_next ?m s))
      \<lparr>li_head = 10, li_base = 20, li_num_nodes = 2, li_count = 0\<rparr> =
       Some (Inr [(''[0]'', LazyAt 20), (''[1]'', LazyAt 30)])
     \<and> StdListPrinter_init ?m ''std::list''
         \<lparr>l_end_address = 10, l_end_next = 20, l_size_alloc = 2\<rparr> =
       Some \<lparr>lp_typename = ''std::list'',
            lp_val = \<lparr>l_end_address = 10, l_end_next = 20, l_size_alloc = 2\<rparr>,
            lp_size = 2, lp_children = True\<rparr>
     \<and> list_to_string \<lparr>lp_typename = ''std::list'',
            lp_val = \<lparr>l_end_address = 10, l_end_next = 20, l_size_alloc = 2\<rparr>,
            lp_size = 2, lp_children = True\<rparr> = ''std::list (length=2)''"
    using list_traversal [of ?a "\<lparr>l_end_address = 10, l_end_next = 20, l_size_alloc = 2\<rparr>"
                             2 ?m "''std::list''"] c2
    by (simp add: upt2 lab f2)
  have B: "StdListPrinter_init ?m ''std::list''
         \<lparr>l_end_address = 10, l_end_next = 20, l_size_alloc = 3\<rparr> =
       Some \<lparr>lp_typename = ''std::list'',
            lp_val = \<lparr>l_end_address = 10, l_end_next = 20, l_size_alloc = 3\<rparr>,
            lp_size = - 1, lp_children = False\<rparr>
     \<and> list_to_string \<lparr>lp_typename = ''std::list'',
            lp_val = \<lparr>l_end_address = 10, l_end_next = 20, l_size_alloc = 3\<rparr>,
            lp_size = - 1, lp_children = False\<rparr> = ''invalid''"
    using list_traversal [of ?a "\<lparr>l_end_address = 10, l_end_next = 20, l_size_alloc = 3\<rparr>"
                             2 ?m "''std::list''"] c2
    by simp
  have C: "StdListPrinter_init ?m' ''std::list''
         \<lparr>l_end_address = 10, l_end_next = 20, l_size_alloc = 2\<rparr> =
       Some \<lparr>lp_typename = ''std::list'',
            lp_val = \<lparr>l_end_address = 10, l_end_next = 20, l_size_alloc = 2\<rparr>,
            lp_size = - 1, lp_children = False\<rparr>"
    using list_traversal [of ?a "\<lparr>l_end_address = 10, l_end_next = 20, l_size_alloc = 2\<rparr>"
                             1 ?m' "''std::list''"] c1
    by simp
  from A B C show ?thesis by simp
qed

subsection \<open>The hash table decoder\<close>

text \<open>
  The traversal of a hash table, for any run of \<open>k\<close> entries \<open>a 0\<close>, ..., \<open>a (k - 1)\<close>
  linked from the stored head pointer, each of them not null, readable and, for a map
  printer, with a key the host can format, and with \<open>k\<close> within the count \<open>n\<close> of the
  iterator: the iterator passes through them in order.
\<close>

lemma hashtable_steps:
  assumes "\<forall>i<k. a i \<noteq> 0 \<and> (\<exists>node. m (a i) = Some node \<and> hn_next node = a (Suc i))
                 \<and> (\<forall>f. ks = Some f \<longrightarrow> f (a i) \<noteq> None)"
    and "int k \<le> n" and "i < k"
  shows "map_wrap ks (hashtable_next m \<lparr>hi_node = a i, hi_size = n, hi_count = int i\<rparr>) =
         Yield (case ks of
                  None \<Rightarrow> (label (int i), LazyAt (a i))
                | Some f \<Rightarrow> (label (int i) @ '' '' @ the (f (a i)), SecondAt (a i)))
           \<lparr>hi_node = a (Suc i), hi_size = n, hi_count = int (Suc i)\<rparr>"
proof -
  from assms(1,3) obtain node where n0: "a i \<noteq> 0" and node: "m (a i) = Some node"
    and nx: "hn_next node = a (Suc i)" and key: "\<forall>f. ks = Some f \<longrightarrow> f (a i) \<noteq> None"
    by blast
  from assms(2,3) have lt: "\<not> n \<le> int i" by linarith
  have base: "hashtable_next m \<lparr>hi_node = a i, hi_size = n, hi_count = int i\<rparr> =
              Yield (label (int i), LazyAt (a i))
                \<lparr>hi_node = a (Suc i), hi_size = n, hi_count = int (Suc i)\<rparr>"
    using n0 node nx lt by (simp add: hashtable_next_def fetch_def)
  show ?thesis
  proof (cases ks)
    case None
    then show ?thesis by (simp add: base map_wrap_def)
  next
    case (Some f)
    with key obtain kstr where "f (a i) = Some kstr" by auto
    with Some show ?thesis by (simp add: base map_wrap_def)
  qed
qed

lemma hashtable_stop:
  assumes "int k = n \<or> a k = 0 \<or> m (a k) = None \<or> (\<exists>f. ks = Some f \<and> f (a k) = None)"
  shows "map_wrap ks (hashtable_next m \<lparr>hi_node = a k, hi_size = n, hi_count = int k\<rparr>) =
         StopIteration"
  using assms
  by (auto simp: map_wrap_def hashtable_next_def fetch_def split: option.splits)

lemma hashtable_run:
  assumes "\<forall>i<k. a i \<noteq> 0 \<and> (\<exists>node. m (a i) = Some node \<and> hn_next node = a (Suc i))
                 \<and> (\<forall>f. ks = Some f \<longrightarrow> f (a i) \<noteq> None)"
    and "int k \<le> n"
    and "int k = n \<or> a k = 0 \<or> m (a k) = None \<or> (\<exists>f. ks = Some f \<and> f (a k) = None)"
  shows "py_list (\<lambda>s. Some (map_wrap ks (hashtable_next m s)))
           \<lparr>hi_node = a 0, hi_size = n, hi_count = 0\<rparr> =
         Some (Inr (map (\<lambda>i. case ks of
                               None \<Rightarrow> (label (int i), LazyAt (a i))
                             | Some f \<Rightarrow> (label (int i) @ '' '' @ the (f (a i)), SecondAt (a i)))
                      [0..<k]))"
proof -
  let ?f = "\<lambda>i. \<lparr>hi_node = a i, hi_size = n, hi_count = int i\<rparr>"
  let ?x = "\<lambda>i. case ks of
                  None \<Rightarrow> (label (int i), LazyAt (a i))
                | Some f \<Rightarrow> (label (int i) @ '' '' @ the (f (a i)), SecondAt (a i))"
  have "py_list (\<lambda>s. Some (map_wrap ks (hashtable_next m s))) (?f 0) =
          Some (Inr (map ?x [0..<k]))"
  proof (rule py_list_steps
      [where f = ?f and n = k and nxt = "\<lambda>s. Some (map_wrap ks (hashtable_next m s))"
         and x = ?x])
    show "\<And>i. i < k \<Longrightarrow> Some (map_wrap ks (hashtable_next m (?f i))) =
            Some (Yield (?x i) (?f (Suc i)))"
      by (simp only: hashtable_steps [OF assms(1,2)])
    show "Some (map_wrap ks (hashtable_next m (?f k))) = Some StopIteration"
      using hashtable_stop [of k n a m ks] assms(3) by simp
  qed
  then show ?thesis by simp
qed

text \<open>
  Claim C6: a hash-table-backed decoder traverses a single chain from the stored head
  pointer via each entry's next link, bounded by the stored element count; if a null next
  link is reached before the traversal count equals the stored count, the decoder
  invalidates itself (summary \<^verbatim>\<open>invalid\<close>, no element sequence).

  This holds for the set printers (\<open>ks = None\<close>) and the map printers alike. Here
  \<open>a 0\<close>, ..., \<open>a (k - 1)\<close> are the first \<open>k\<close> entries of the chain from the head pointer,
  none of them null, all readable, and \<open>k\<close> is within the stored count; the traversal ends
  at position \<open>k\<close> because the stored count is reached or because the link is null (or
  the entry there cannot be read or its key cannot be formatted). Then the elements of
  the traversal are exactly these \<open>k\<close> entries in chain order. If \<open>k\<close> is the stored
  count, the decoder is valid with that count, however the chain goes on; if the
  traversal ends before the stored count, the decoder has size -1, the summary
  \<^verbatim>\<open>invalid\<close> and no element sequence.
\<close>

theorem hashtable_traversal:
  assumes "a 0 = ht_p1_first_next val"
    and "\<forall>i<k. a i \<noteq> 0 \<and> (\<exists>node. m (a i) = Some node \<and> hn_next node = a (Suc i))
                 \<and> (\<forall>f. ks = Some f \<longrightarrow> f (a i) \<noteq> None)"
    and "int k \<le> uint (ht_p2_first val)"
    and "uint (ht_p2_first val) \<le> max_index"
    and "int k = uint (ht_p2_first val) \<or> a k = 0 \<or> m (a k) = None
         \<or> (\<exists>f. ks = Some f \<and> f (a k) = None)"
  shows "py_list (\<lambda>s. Some (map_wrap ks (hashtable_next m s)))
           (hashtable_children
              \<lparr>hp_typename = tn, hp_val = val, hp_size = 0, hp_children = False\<rparr>) =
         Some (Inr (map (\<lambda>i. case ks of
                               None \<Rightarrow> (label (int i), LazyAt (a i))
                             | Some f \<Rightarrow> (label (int i) @ '' '' @ the (f (a i)), SecondAt (a i)))
                      [0..<k]))
       \<and> HashTablePrinter_init m ks tn val =
           Some \<lparr>hp_typename = tn, hp_val = val,
                 hp_size = (if int k = uint (ht_p2_first val) then int k else - 1),
                 hp_children = (int k = uint (ht_p2_first val) \<and> 0 < k)\<rparr>
       \<and> hashtable_to_string
           \<lparr>hp_typename = tn, hp_val = val,
            hp_size = (if int k = uint (ht_p2_first val) then int k else - 1),
            hp_children = (int k = uint (ht_p2_first val) \<and> 0 < k)\<rparr> =
           (if int k \<noteq> uint (ht_p2_first val) then ''invalid''
            else if k = 0 then ''empty''
            else tn @ '' (count='' @ fmt_d (int k) @ '')'')"
proof (intro conjI)
  let ?p = "\<lparr>hp_typename = tn, hp_val = val, hp_size = 0, hp_children = False\<rparr>"
  have ch: "hashtable_children ?p =
      \<lparr>hi_node = a 0, hi_size = uint (ht_p2_first val), hi_count = 0\<rparr>"
    using assms(1) by (simp add: hashtable_children_def)
  show run: "py_list (\<lambda>s. Some (map_wrap ks (hashtable_next m s))) (hashtable_children ?p) =
         Some (Inr (map (\<lambda>i. case ks of
                               None \<Rightarrow> (label (int i), LazyAt (a i))
                             | Some f \<Rightarrow> (label (int i) @ '' '' @ the (f (a i)), SecondAt (a i)))
                      [0..<k]))"
    unfolding ch by (rule hashtable_run [OF assms(2,3,5)])
  have sz: "hi_size (hashtable_children ?p) = uint (ht_p2_first val)"
    by (simp add: ch)
  show "HashTablePrinter_init m ks tn val =
           Some \<lparr>hp_typename = tn, hp_val = val,
                 hp_size = (if int k = uint (ht_p2_first val) then int k else - 1),
                 hp_children = (int k = uint (ht_p2_first val) \<and> 0 < k)\<rparr>"
    using assms(4) by (auto simp: HashTablePrinter_init_def Let_def run sz)
  show "hashtable_to_string
           \<lparr>hp_typename = tn, hp_val = val,
            hp_size = (if int k = uint (ht_p2_first val) then int k else - 1),
            hp_children = (int k = uint (ht_p2_first val) \<and> 0 < k)\<rparr> =
           (if int k \<noteq> uint (ht_p2_first val) then ''invalid''
            else if k = 0 then ''empty''
            else tn @ '' (count='' @ fmt_d (int k) @ '')'')"
    by (auto simp: hashtable_to_string_def)
qed

text \<open>
  The theorem at the chain 50, 60, null. With the stored count 2 the table is valid and
  its elements are the entries at 50 and 60, for a set printer and for a map printer
  whose keys read \<^verbatim>\<open>k50\<close> and \<^verbatim>\<open>k60\<close>. With the stored count 3 the null link is
  reached after two entries and the decoder is invalid. With the stored count 1 the
  traversal stops at the first entry and the decoder is valid.
\<close>

theorem hashtable_traversal_witness:
  "py_list (\<lambda>s. Some (map_wrap None
        (hashtable_next [50 \<mapsto> \<lparr>hn_next = 60\<rparr>, 60 \<mapsto> \<lparr>hn_next = 0\<rparr>] s)))
      (hashtable_children
         \<lparr>hp_typename = ''std::unordered_set'',
          hp_val = \<lparr>ht_p1_first_next = 50, ht_p2_first = 2\<rparr>,
          hp_size = 0, hp_children = False\<rparr>) =
    Some (Inr [(''[0]'', LazyAt 50), (''[1]'', LazyAt 60)])
   \<and> HashTablePrinter_init [50 \<mapsto> \<lparr>hn_next = 60\<rparr>, 60 \<mapsto> \<lparr>hn_next = 0\<rparr>] None
        ''std::unordered_set'' \<lparr>ht_p1_first_next = 50, ht_p2_first = 2\<rparr> =
      Some \<lparr>hp_typename = ''std::unordered_set'',
            hp_val = \<lparr>ht_p1_first_next = 50, ht_p2_first = 2\<rparr>,
            hp_size = 2, hp_children = True\<rparr>
   \<and> hashtable_to_string
        \<lparr>hp_typename = ''std::unordered_set'',
         hp_val = \<lparr>ht_p1_first_next = 50, ht_p2_first = 2\<rparr>,
         hp_size = 2, hp_children = True\<rparr> = ''std::unordered_set (count=2)''
   \<and> py_list (\<lambda>s. Some (map_wrap (Some [50 \<mapsto> ''k50'', 60 \<mapsto> ''k60''])
        (hashtable_next [50 \<mapsto> \<lparr>hn_next = 60\<rparr>, 60 \<mapsto> \<lparr>hn_next = 0\<rparr>] s)))
      (hashtable_children
         \<lparr>hp_typename = ''std::unordered_map'',
          hp_val = \<lparr>ht_p1_first_next = 50, ht_p2_first = 2\<rparr>,
          hp_size = 0, hp_children = False\<rparr>) =
    Some (Inr [(''[0] k50'', SecondAt 50), (''[1] k60'', SecondAt 60)])
   \<and> HashTablePrinter_init [50 \<mapsto> \<lparr>hn_next = 60\<rparr>, 60 \<mapsto> \<lparr>hn_next = 0\<rparr>] None
        ''std::unordered_set'' \<lparr>ht_p1_first_next = 50, ht_p2_first = 3\<rparr> =
      Some \<lparr>hp_typename = ''std::unordered_set'',
            hp_val = \<lparr>ht_p1_first_next = 50, ht_p2_first = 3\<rparr>,
            hp_size = - 1, hp_children = False\<rparr>
   \<and> hashtable_to_string
        \<lparr>hp_typename = ''std::unordered_set'',
         hp_val = \<lparr>ht_p1_first_next = 50, ht_p2_first = 3\<rparr>,
         hp_size = - 1, hp_children = False\<rparr> = ''invalid''
   \<and> HashTablePrinter_init [50 \<mapsto> \<lparr>hn_next = 60\<rparr>, 60 \<mapsto> \<lparr>hn_next = 0\<rparr>] None
        ''std::unordered_set'' \<lparr>ht_p1_first_next = 50, ht_p2_first = 1\<rparr> =
      Some \<lparr>hp_typename = ''std::unordered_set'',
            hp_val = \<lparr>ht_p1_first_next = 50, ht_p2_first = 1\<rparr>,
            hp_size = 1, hp_children = True\<rparr>"
proof -
  let ?a = "\<lambda>i::nat. if i = 0 then 50 else if i = 1 then 60 else (0::int)"
  let ?m = "[50 \<mapsto> \<lparr>hn_next = 60\<rparr>, 60 \<mapsto> \<lparr>hn_next = 0::int\<rparr>]"
  let ?ks = "Some [50 \<mapsto> ''k50'', 60 \<mapsto> ''k60'']"
  have upt2: "[0..<2] = [0, 1::nat]" by code_simp
  have lab: "label 0 = ''[0]''" "label 1 = ''[1]''" by (simp_all add: label_def fmt_d_def)
  have f2: "fmt_d 2 = ''2''" by (simp add: fmt_d_def)
  have mx: "max_index = 9223372036854775807" by (simp add: max_index_def)
  have c2: "\<forall>i<2. ?a i \<noteq> 0 \<and> (\<exists>node. ?m (?a i) = Some node \<and> hn_next node = ?a (Suc i))
                 \<and> (\<forall>f. ks = Some f \<longrightarrow> f (?a i) \<noteq> None)"
    if "ks = None \<or> ks = ?ks" for ks :: key_str
    using that by (auto simp: less_Suc_eq numeral_2_eq_2)
  have c1: "\<forall>i<1. ?a i \<noteq> 0 \<and> (\<exists>node. ?m (?a i) = Some node \<and> hn_next node = ?a (Suc i))
                 \<and> (\<forall>f. (None :: key_str) = Some f \<longrightarrow> f (?a i) \<noteq> None)"
    by auto
  have A: "py_list (\<lambda>s. Some (map_wrap None (hashtable_next ?m s)))
      (hashtable_children
         \<lparr>hp_typename = ''std::unordered_set'',
          hp_val = \<lparr>ht_p1_first_next = 50, ht_p2_first = 2\<rparr>,
          hp_size = 0, hp_children = False\<rparr>) =
       Some (Inr [(''[0]'', LazyAt 50), (''[1]'', LazyAt 60)])
     \<and> HashTablePrinter_init ?m None
        ''std::unordered_set'' \<lparr>ht_p1_first_next = 50, ht_p2_first = 2\<rparr> =
      Some \<lparr>hp_typename = ''std::unordered_set'',
            hp_val = \<lparr>ht_p1_first_next = 50, ht_p2_first = 2\<rparr>,
            hp_size = 2, hp_children = True\<rparr>
     \<and> hashtable_to_string
        \<lparr>hp_typename = ''std::unordered_set'',
         hp_val = \<lparr>ht_p1_first_next = 50, ht_p2_first = 2\<rparr>,
         hp_size = 2, hp_children = True\<rparr> = ''std::unordered_set (count=2)''"
    using hashtable_traversal [of ?a "\<lparr>ht_p1_first_next = 50, ht_p2_first = 2\<rparr>" 2 ?m None
                                  "''std::unordered_set''"] c2 [of None]
    by (simp add: upt2 lab f2 mx)
  have B: "py_list (\<lambda>s. Some (map_wrap ?ks (hashtable_next ?m s)))
      (hashtable_children
         \<lparr>hp_typename = ''std::unordered_map'',
          hp_val = \<lparr>ht_p1_first_next = 50, ht_p2_first = 2\<rparr>,
          hp_size = 0, hp_children = False\<rparr>) =
       Some (Inr [(''[0] k50'', SecondAt 50), (''[1] k60'', SecondAt 60)])"
    using hashtable_traversal [of ?a "\<lparr>ht_p1_first_next = 50, ht_p2_first = 2\<rparr>" 2 ?m ?ks
                                  "''std::unordered_map''"] c2 [of ?ks]
    by (simp add: upt2 lab f2 mx)
  have C: "HashTablePrinter_init ?m None
        ''std::unordered_set'' \<lparr>ht_p1_first_next = 50, ht_p2_first = 3\<rparr> =
      Some \<lparr>hp_typename = ''std::unordered_set'',
            hp_val = \<lparr>ht_p1_first_next = 50, ht_p2_first = 3\<rparr>,
            hp_size = - 1, hp_children = False\<rparr>
     \<and> hashtable_to_string
        \<lparr>hp_typename = ''std::unordered_set'',
         hp_val = \<lparr>ht_p1_first_next = 50, ht_p2_first = 3\<rparr>,
         hp_size = - 1, hp_children = False\<rparr> = ''invalid''"
    using hashtable_traversal [of ?a "\<lparr>ht_p1_first_next = 50, ht_p2_first = 3\<rparr>" 2 ?m None
                                  "''std::unordered_set''"] c2 [of None]
    by (simp add: mx)
  have D: "HashTablePrinter_init ?m None
        ''std::unordered_set'' \<lparr>ht_p1_first_next = 50, ht_p2_first = 1\<rparr> =
      Some \<lparr>hp_typename = ''std::unordered_set'',
            hp_val = \<lparr>ht_p1_first_next = 50, ht_p2_first = 1\<rparr>,
            hp_size = 1, hp_children = True\<rparr>"
    using hashtable_traversal [of ?a "\<lparr>ht_p1_first_next = 50, ht_p2_first = 1\<rparr>" 1 ?m None
                                  "''std::unordered_set''"] c1
    by (simp add: mx)
  from A B C D show ?thesis by simp
qed

subsection \<open>The stored count of a tree and of a hash table\<close>

text \<open>
  The stored count is an unsigned word: read as a signed number it is negative exactly
  when, as the number the iterator takes, it is above the interpreter's largest index.
\<close>

lemma sint_neg_iff: "(sint (w :: 64 word) < 0) = (uint w > max_index)"
proof -
  have b: "0 \<le> uint w" "uint w < 2 ^ 64"
    using uint_lt2p [of w] by simp_all
  have "sint w = signed_take_bit 63 (uint w)"
    by (simp add: sint_uint)
  also have "\<dots> = take_bit 64 (uint w + 2 ^ 63) - 2 ^ 63"
    using signed_take_bit_eq_take_bit_shift [of 63 "uint w"] by simp
  also have "\<dots> = (uint w + 2 ^ 63) mod 2 ^ 64 - 2 ^ 63"
    by (simp only: take_bit_eq_mod)
  finally have s: "sint w = (uint w + 2 ^ 63) mod 2 ^ 64 - 2 ^ 63" .
  show ?thesis
  proof (cases "uint w < 2 ^ 63")
    case True
    have "(uint w + 2 ^ 63) mod 2 ^ 64 = uint w + 2 ^ 63"
      by (rule mod_pos_pos_trivial) (use True b in simp_all)
    then show ?thesis using True b s by (simp add: max_index_def)
  next
    case False
    have "(uint w + 2 ^ 63) mod 2 ^ 64 = (uint w + 2 ^ 63 - 2 ^ 64) mod 2 ^ 64"
      by (rule minus_mod_self2 [symmetric])
    also have "\<dots> = uint w + 2 ^ 63 - 2 ^ 64"
      by (rule mod_pos_pos_trivial) (use False b in simp_all)
    finally show ?thesis using False b s by (simp add: max_index_def)
  qed
qed

lemma count_summary_not_empty: "tn @ '' (count='' @ s @ '')'' \<noteq> ''empty''"
proof
  assume "tn @ '' (count='' @ s @ '')'' = ''empty''"
  then have "(tn @ '' (count='' @ s) @ [CHR '')''] = ''empt'' @ [CHR ''y'']" by simp
  then have "CHR '')'' = CHR ''y''" by (simp only: append1_eq_conv)
  then show False by simp
qed

lemma rbtree_size_unsigned: "ri_size (rbtree_children p) = uint (rb_pair3_first (rp_val p))"
  by (simp add: rbtree_children_def)

lemma hashtable_size_unsigned: "hi_size (hashtable_children p) = uint (ht_p2_first (hp_val p))"
  by (simp add: hashtable_children_def)

lemma rbtree_init_cases:
  assumes "StdRbtreePrinter_init m ks tn rv = Some p"
  shows "p = \<lparr>rp_typename = tn, rp_val = rv, rp_size = - 1, rp_children = False\<rparr>
       \<or> p = \<lparr>rp_typename = tn, rp_val = rv, rp_size = uint (rb_pair3_first rv),
              rp_children = (rb_pair3_first rv \<noteq> 0)\<rparr>"
  using assms uint_ge_0 [of "rb_pair3_first rv"] uint_0_iff [of "rb_pair3_first rv"]
  by (auto simp: StdRbtreePrinter_init_def Let_def rbtree_size_unsigned
           split: option.splits sum.splits if_splits)

lemma hashtable_init_cases:
  assumes "HashTablePrinter_init m ks tn hv = Some p"
  shows "p = \<lparr>hp_typename = tn, hp_val = hv, hp_size = - 1, hp_children = False\<rparr>
       \<or> p = \<lparr>hp_typename = tn, hp_val = hv, hp_size = uint (ht_p2_first hv),
              hp_children = (ht_p2_first hv \<noteq> 0)\<rparr>"
  using assms uint_ge_0 [of "ht_p2_first hv"] uint_0_iff [of "ht_p2_first hv"]
  by (auto simp: HashTablePrinter_init_def Let_def hashtable_size_unsigned
           split: option.splits sum.splits if_splits)

lemma rbtree_init_overflow:
  assumes "sint (rb_pair3_first rv) < 0"
  shows "StdRbtreePrinter_init m ks tn rv =
         Some \<lparr>rp_typename = tn, rp_val = rv, rp_size = - 1, rp_children = False\<rparr>"
  using assms
  by (simp add: StdRbtreePrinter_init_def Let_def rbtree_size_unsigned sint_neg_iff)

lemma hashtable_init_overflow:
  assumes "sint (ht_p2_first hv) < 0"
  shows "HashTablePrinter_init m ks tn hv =
         Some \<lparr>hp_typename = tn, hp_val = hv, hp_size = - 1, hp_children = False\<rparr>"
  using assms
  by (simp add: HashTablePrinter_init_def Let_def hashtable_size_unsigned sint_neg_iff)

lemma rbtree_init_zero:
  assumes "rb_pair3_first rv = 0"
  shows "StdRbtreePrinter_init m ks tn rv =
         Some \<lparr>rp_typename = tn, rp_val = rv, rp_size = 0, rp_children = False\<rparr>"
proof -
  let ?p = "\<lparr>rp_typename = tn, rp_val = rv, rp_size = 0, rp_children = False\<rparr>"
  have sz: "ri_size (rbtree_children ?p) = 0"
    using assms by (simp add: rbtree_size_unsigned)
  have "map_option (map_wrap ks) (rbtree_next m (rbtree_children ?p)) = Some StopIteration"
    using sz by (simp add: rbtree_next_def rbtree_children_def map_wrap_def split: option.splits)
  then have "py_list (\<lambda>s. map_option (map_wrap ks) (rbtree_next m s)) (rbtree_children ?p)
               = Some (Inr [])"
    by (rule py_list_Stop)
  then show ?thesis
    using sz by (simp add: StdRbtreePrinter_init_def Let_def max_index_def)
qed

lemma hashtable_init_zero:
  assumes "ht_p2_first hv = 0"
  shows "HashTablePrinter_init m ks tn hv =
         Some \<lparr>hp_typename = tn, hp_val = hv, hp_size = 0, hp_children = False\<rparr>"
proof -
  let ?p = "\<lparr>hp_typename = tn, hp_val = hv, hp_size = 0, hp_children = False\<rparr>"
  have sz: "hi_size (hashtable_children ?p) = 0"
    using assms by (simp add: hashtable_size_unsigned)
  have "Some (map_wrap ks (hashtable_next m (hashtable_children ?p))) = Some StopIteration"
    using sz by (simp add: hashtable_next_def hashtable_children_def map_wrap_def
                      split: option.splits)
  then have "py_list (\<lambda>s. Some (map_wrap ks (hashtable_next m s))) (hashtable_children ?p)
               = Some (Inr [])"
    by (rule py_list_Stop)
  then show ?thesis
    using sz by (simp add: HashTablePrinter_init_def Let_def max_index_def)
qed

text \<open>
  Claim C10: for a tree-backed or hash-table-backed decoder whose stored element count is
  negative, the iterator replaces the count by 0 before the traversal, so the decoder's
  summary is \<^verbatim>\<open>empty\<close> and it exposes no element sequence; it does not mark itself
  invalid.

  The count field has the container's unsigned size type, so the comparison of lines 696
  and 819 is never true, and a field whose bits read as a negative number is a very large
  count. At the field with all bits set, which is -1 as a signed number, the iterator's
  count is \<open>2 ^ 64 - 1\<close> and both decoders are invalid, with a readable first node as
  here or without.
\<close>

theorem negative_bit_pattern_is_invalid:
  "sint (rb_pair3_first \<lparr>rb_begin_node = 70, rb_pair3_first = - 1\<rparr>) = - 1
   \<and> ri_size (rbtree_children
        \<lparr>rp_typename = ''std::set'', rp_val = \<lparr>rb_begin_node = 70, rb_pair3_first = - 1\<rparr>,
         rp_size = 0, rp_children = False\<rparr>) = 18446744073709551615
   \<and> StdRbtreePrinter_init [70 \<mapsto> \<lparr>tn_left = 0, tn_right = 0, tn_parent = 80\<rparr>] None
        ''std::set'' \<lparr>rb_begin_node = 70, rb_pair3_first = - 1\<rparr> =
      Some \<lparr>rp_typename = ''std::set'', rp_val = \<lparr>rb_begin_node = 70, rb_pair3_first = - 1\<rparr>,
            rp_size = - 1, rp_children = False\<rparr>
   \<and> rbtree_to_string
        \<lparr>rp_typename = ''std::set'', rp_val = \<lparr>rb_begin_node = 70, rb_pair3_first = - 1\<rparr>,
         rp_size = - 1, rp_children = False\<rparr> = ''invalid''
   \<and> sint (ht_p2_first \<lparr>ht_p1_first_next = 50, ht_p2_first = - 1\<rparr>) = - 1
   \<and> hi_size (hashtable_children
        \<lparr>hp_typename = ''std::unordered_set'',
         hp_val = \<lparr>ht_p1_first_next = 50, ht_p2_first = - 1\<rparr>,
         hp_size = 0, hp_children = False\<rparr>) = 18446744073709551615
   \<and> HashTablePrinter_init [50 \<mapsto> \<lparr>hn_next = 0\<rparr>] None
        ''std::unordered_set'' \<lparr>ht_p1_first_next = 50, ht_p2_first = - 1\<rparr> =
      Some \<lparr>hp_typename = ''std::unordered_set'',
            hp_val = \<lparr>ht_p1_first_next = 50, ht_p2_first = - 1\<rparr>,
            hp_size = - 1, hp_children = False\<rparr>
   \<and> hashtable_to_string
        \<lparr>hp_typename = ''std::unordered_set'',
         hp_val = \<lparr>ht_p1_first_next = 50, ht_p2_first = - 1\<rparr>,
         hp_size = - 1, hp_children = False\<rparr> = ''invalid''"
proof -
  have u: "uint (- 1 :: 64 word) = 18446744073709551615"
    by (simp add: uint_word_ariths)
  show ?thesis
    by (simp add: StdRbtreePrinter_init_def HashTablePrinter_init_def Let_def
          rbtree_children_def hashtable_children_def u max_index_def
          rbtree_to_string_def hashtable_to_string_def)
qed

text \<open>
  Claim C10 as amended: the stored element count of a tree-backed or hash-table-backed
  decoder is unsigned and the iterator takes it as it is, never replaced by 0. A count
  whose bits read as a negative number makes the decoder invalid (size -1, summary
  \<^verbatim>\<open>invalid\<close>, no element sequence). A count of 0 gives the summary \<^verbatim>\<open>empty\<close> and
  no element sequence, and no other count does: a decoder whose summary is \<^verbatim>\<open>empty\<close>
  has the stored count 0.
\<close>

theorem stored_count_is_unsigned:
  "ri_size (rbtree_children rp) = uint (rb_pair3_first (rp_val rp))
   \<and> hi_size (hashtable_children hp) = uint (ht_p2_first (hp_val hp))
   \<and> (sint (rb_pair3_first rv) < 0 \<longrightarrow>
        StdRbtreePrinter_init tm ks tn rv =
          Some \<lparr>rp_typename = tn, rp_val = rv, rp_size = - 1, rp_children = False\<rparr>
        \<and> rbtree_to_string
            \<lparr>rp_typename = tn, rp_val = rv, rp_size = - 1, rp_children = False\<rparr> = ''invalid'')
   \<and> (sint (ht_p2_first hv) < 0 \<longrightarrow>
        HashTablePrinter_init hm ks tn hv =
          Some \<lparr>hp_typename = tn, hp_val = hv, hp_size = - 1, hp_children = False\<rparr>
        \<and> hashtable_to_string
            \<lparr>hp_typename = tn, hp_val = hv, hp_size = - 1, hp_children = False\<rparr> = ''invalid'')
   \<and> (rb_pair3_first rv = 0 \<longrightarrow>
        StdRbtreePrinter_init tm ks tn rv =
          Some \<lparr>rp_typename = tn, rp_val = rv, rp_size = 0, rp_children = False\<rparr>
        \<and> rbtree_to_string
            \<lparr>rp_typename = tn, rp_val = rv, rp_size = 0, rp_children = False\<rparr> = ''empty'')
   \<and> (ht_p2_first hv = 0 \<longrightarrow>
        HashTablePrinter_init hm ks tn hv =
          Some \<lparr>hp_typename = tn, hp_val = hv, hp_size = 0, hp_children = False\<rparr>
        \<and> hashtable_to_string
            \<lparr>hp_typename = tn, hp_val = hv, hp_size = 0, hp_children = False\<rparr> = ''empty'')
   \<and> (StdRbtreePrinter_init tm ks tn rv = Some p \<and> rbtree_to_string p = ''empty''
        \<longrightarrow> rb_pair3_first rv = 0)
   \<and> (HashTablePrinter_init hm ks tn hv = Some q \<and> hashtable_to_string q = ''empty''
        \<longrightarrow> ht_p2_first hv = 0)"
proof (intro conjI impI)
  show "ri_size (rbtree_children rp) = uint (rb_pair3_first (rp_val rp))"
    by (rule rbtree_size_unsigned)
  show "hi_size (hashtable_children hp) = uint (ht_p2_first (hp_val hp))"
    by (rule hashtable_size_unsigned)
  show "rbtree_to_string
          \<lparr>rp_typename = tn, rp_val = rv, rp_size = - 1, rp_children = False\<rparr> = ''invalid''"
    by (simp add: rbtree_to_string_def)
  show "hashtable_to_string
          \<lparr>hp_typename = tn, hp_val = hv, hp_size = - 1, hp_children = False\<rparr> = ''invalid''"
    by (simp add: hashtable_to_string_def)
  show "rbtree_to_string
          \<lparr>rp_typename = tn, rp_val = rv, rp_size = 0, rp_children = False\<rparr> = ''empty''"
    by (simp add: rbtree_to_string_def)
  show "hashtable_to_string
          \<lparr>hp_typename = tn, hp_val = hv, hp_size = 0, hp_children = False\<rparr> = ''empty''"
    by (simp add: hashtable_to_string_def)
next
  assume "sint (rb_pair3_first rv) < 0"
  then show "StdRbtreePrinter_init tm ks tn rv =
          Some \<lparr>rp_typename = tn, rp_val = rv, rp_size = - 1, rp_children = False\<rparr>"
    by (rule rbtree_init_overflow)
next
  assume "sint (ht_p2_first hv) < 0"
  then show "HashTablePrinter_init hm ks tn hv =
          Some \<lparr>hp_typename = tn, hp_val = hv, hp_size = - 1, hp_children = False\<rparr>"
    by (rule hashtable_init_overflow)
next
  assume "rb_pair3_first rv = 0"
  then show "StdRbtreePrinter_init tm ks tn rv =
          Some \<lparr>rp_typename = tn, rp_val = rv, rp_size = 0, rp_children = False\<rparr>"
    by (rule rbtree_init_zero)
next
  assume "ht_p2_first hv = 0"
  then show "HashTablePrinter_init hm ks tn hv =
          Some \<lparr>hp_typename = tn, hp_val = hv, hp_size = 0, hp_children = False\<rparr>"
    by (rule hashtable_init_zero)
next
  assume a: "StdRbtreePrinter_init tm ks tn rv = Some p \<and> rbtree_to_string p = ''empty''"
  then have sz: "rp_size p = 0"
    by (simp add: rbtree_to_string_def count_summary_not_empty split: if_splits)
  from a rbtree_init_cases [of tm ks tn rv p] sz show "rb_pair3_first rv = 0"
    by (auto simp: uint_0_iff)
next
  assume a: "HashTablePrinter_init hm ks tn hv = Some q \<and> hashtable_to_string q = ''empty''"
  then have sz: "hp_size q = 0"
    by (simp add: hashtable_to_string_def count_summary_not_empty split: if_splits)
  from a hashtable_init_cases [of hm ks tn hv q] sz show "ht_p2_first hv = 0"
    by (auto simp: uint_0_iff)
qed

text \<open>
  The theorem at a tree and a hash table with one readable node each: with the stored
  count -2 as a signed number both are invalid, with the stored count 0 both are empty.
\<close>

theorem stored_count_is_unsigned_witness:
  "StdRbtreePrinter_init [70 \<mapsto> \<lparr>tn_left = 0, tn_right = 0, tn_parent = 80\<rparr>] None ''std::set''
       \<lparr>rb_begin_node = 70, rb_pair3_first = - 2\<rparr> =
     Some \<lparr>rp_typename = ''std::set'', rp_val = \<lparr>rb_begin_node = 70, rb_pair3_first = - 2\<rparr>,
           rp_size = - 1, rp_children = False\<rparr>
   \<and> HashTablePrinter_init [50 \<mapsto> \<lparr>hn_next = 0\<rparr>] None ''std::set''
       \<lparr>ht_p1_first_next = 50, ht_p2_first = - 2\<rparr> =
     Some \<lparr>hp_typename = ''std::set'', hp_val = \<lparr>ht_p1_first_next = 50, ht_p2_first = - 2\<rparr>,
           hp_size = - 1, hp_children = False\<rparr>
   \<and> StdRbtreePrinter_init [70 \<mapsto> \<lparr>tn_left = 0, tn_right = 0, tn_parent = 80\<rparr>] None ''std::set''
       \<lparr>rb_begin_node = 70, rb_pair3_first = 0\<rparr> =
     Some \<lparr>rp_typename = ''std::set'', rp_val = \<lparr>rb_begin_node = 70, rb_pair3_first = 0\<rparr>,
           rp_size = 0, rp_children = False\<rparr>
   \<and> HashTablePrinter_init [50 \<mapsto> \<lparr>hn_next = 0\<rparr>] None ''std::set''
       \<lparr>ht_p1_first_next = 50, ht_p2_first = 0\<rparr> =
     Some \<lparr>hp_typename = ''std::set'', hp_val = \<lparr>ht_p1_first_next = 50, ht_p2_first = 0\<rparr>,
           hp_size = 0, hp_children = False\<rparr>"
  using stored_count_is_unsigned
    [of _ _ "\<lparr>rb_begin_node = 70, rb_pair3_first = - 2\<rparr>"
        "[70 \<mapsto> \<lparr>tn_left = 0, tn_right = 0, tn_parent = 80\<rparr>]" None "''std::set''"
        "\<lparr>ht_p1_first_next = 50, ht_p2_first = - 2\<rparr>" "[50 \<mapsto> \<lparr>hn_next = 0\<rparr>]"]
    stored_count_is_unsigned
    [of _ _ "\<lparr>rb_begin_node = 70, rb_pair3_first = 0\<rparr>"
        "[70 \<mapsto> \<lparr>tn_left = 0, tn_right = 0, tn_parent = 80\<rparr>]" None "''std::set''"
        "\<lparr>ht_p1_first_next = 50, ht_p2_first = 0\<rparr>" "[50 \<mapsto> \<lparr>hn_next = 0\<rparr>]"]
  by simp

subsection \<open>Requesting the element sequence twice\<close>

text \<open>
  Reading an iterator of the heap to its end changes that iterator only: the printer and
  the number of iterators stay, and the result is that of \<^verbatim>\<open>list\<close> on the iterator's
  state. Conversely every result of \<^verbatim>\<open>list\<close> is obtained on the heap.
\<close>

lemma drain_Stop:
  "nxt (h_iterators h ! i) = Some StopIteration \<Longrightarrow> drain nxt i h = Some (Inr [], h)"
  by (subst drain.simps) simp

lemma drain_Raise:
  "nxt (h_iterators h ! i) = Some (Raise e) \<Longrightarrow> drain nxt i h = Some (Inl e, h)"
  by (subst drain.simps) simp

lemma drain_Yield:
  "nxt (h_iterators h ! i) = Some (Yield x s') \<Longrightarrow>
   drain nxt i h =
     Option.bind (drain nxt i (h\<lparr>h_iterators := (h_iterators h)[i := s']\<rparr>))
       (\<lambda>(r, h'). Some (cons_result x r, h'))"
  by (subst drain.simps) simp

lemma drain_result_aux:
  assumes "drain nxt i h = Some y"
  shows "i < length (h_iterators h) \<longrightarrow>
         h_printer (snd y) = h_printer h
         \<and> length (h_iterators (snd y)) = length (h_iterators h)
         \<and> py_list nxt (h_iterators h ! i) = Some (fst y)"
proof (rule drain.raw_induct
    [where P = "\<lambda>nxt i h y. i < length (h_iterators h) \<longrightarrow>
         h_printer (snd y) = h_printer h
         \<and> length (h_iterators (snd y)) = length (h_iterators h)
         \<and> py_list nxt (h_iterators h ! i) = Some (fst y)", OF _ assms])
  fix drain' :: "('s \<Rightarrow> ('a, 's) step option) \<Rightarrow> nat \<Rightarrow> ('p, 's) heap
     \<Rightarrow> ((exn + 'a list) \<times> ('p, 's) heap) option"
  fix nxt i h y
  assume IH: "\<And>nxt i h y. drain' nxt i h = Some y \<Longrightarrow>
         i < length (h_iterators h) \<longrightarrow>
         h_printer (snd y) = h_printer h
         \<and> length (h_iterators (snd y)) = length (h_iterators h)
         \<and> py_list nxt (h_iterators h ! i) = Some (fst y)"
  assume F: "(case nxt (h_iterators h ! i) of
        None \<Rightarrow> None
      | Some StopIteration \<Rightarrow> Some (Inr [], h)
      | Some (Raise e) \<Rightarrow> Some (Inl e, h)
      | Some (Yield x s') \<Rightarrow>
          Option.bind (drain' nxt i (h\<lparr>h_iterators := (h_iterators h)[i := s']\<rparr>))
            (\<lambda>(r, h'). Some (cons_result x r, h'))) = Some y"
  show "i < length (h_iterators h) \<longrightarrow>
         h_printer (snd y) = h_printer h
         \<and> length (h_iterators (snd y)) = length (h_iterators h)
         \<and> py_list nxt (h_iterators h ! i) = Some (fst y)"
  proof (cases "nxt (h_iterators h ! i)")
    case None
    with F show ?thesis by simp
  next
    case (Some st)
    show ?thesis
    proof (cases st)
      case StopIteration
      with Some F show ?thesis by (auto simp: py_list_Stop)
    next
      case (Raise e)
      with Some F show ?thesis by (auto simp: py_list_Raise)
    next
      case (Yield x s')
      let ?h = "h\<lparr>h_iterators := (h_iterators h)[i := s']\<rparr>"
      from Some Yield F obtain r h' where
        sub: "drain' nxt i ?h = Some (r, h')" and y: "y = (cons_result x r, h')"
        by (auto simp: bind_eq_Some_conv)
      have "h_printer h' = h_printer h \<and> length (h_iterators h') = length (h_iterators h)
            \<and> py_list nxt s' = Some r" if "i < length (h_iterators h)"
        using IH [OF sub] that by simp
      with y Some Yield show ?thesis
        using py_list_Yield [of nxt "h_iterators h ! i" x s'] by simp
    qed
  qed
qed

lemma drain_result:
  assumes "drain nxt i h = Some (r, h')" and "i < length (h_iterators h)"
  shows "h_printer h' = h_printer h"
    and "length (h_iterators h') = length (h_iterators h)"
    and "py_list nxt (h_iterators h ! i) = Some r"
  using drain_result_aux [OF assms(1)] assms(2) by simp_all

lemma py_list_drain:
  fixes nxt :: "'s \<Rightarrow> ('a, 's) step option"
  assumes "py_list nxt s = Some r"
  shows "\<forall>(h :: ('p, 's) heap) i. i < length (h_iterators h) \<and> h_iterators h ! i = s
           \<longrightarrow> (\<exists>h'. drain nxt i h = Some (r, h'))"
proof (rule py_list.raw_induct
    [where P = "\<lambda>nxt s r. \<forall>(h :: ('p, 's) heap) i.
           i < length (h_iterators h) \<and> h_iterators h ! i = s
           \<longrightarrow> (\<exists>h'. drain nxt i h = Some (r, h'))", OF _ assms])
  fix py_list' :: "('s \<Rightarrow> ('a, 's) step option) \<Rightarrow> 's \<Rightarrow> (exn + 'a list) option"
  fix nxt s r
  assume IH: "\<And>nxt s r. py_list' nxt s = Some r \<Longrightarrow>
         \<forall>(h :: ('p, 's) heap) i. i < length (h_iterators h) \<and> h_iterators h ! i = s
           \<longrightarrow> (\<exists>h'. drain nxt i h = Some (r, h'))"
  assume F: "(case nxt s of
        None \<Rightarrow> None
      | Some StopIteration \<Rightarrow> Some (Inr [])
      | Some (Raise e) \<Rightarrow> Some (Inl e)
      | Some (Yield x s') \<Rightarrow>
          Option.bind (py_list' nxt s') (\<lambda>r. Some (cons_result x r))) = Some r"
  show "\<forall>(h :: ('p, 's) heap) i. i < length (h_iterators h) \<and> h_iterators h ! i = s
           \<longrightarrow> (\<exists>h'. drain nxt i h = Some (r, h'))"
  proof (intro allI impI, elim conjE)
    fix h :: "('p, 's) heap" and i
    assume i: "i < length (h_iterators h)" and s: "h_iterators h ! i = s"
    show "\<exists>h'. drain nxt i h = Some (r, h')"
    proof (cases "nxt s")
      case None
      with F show ?thesis by simp
    next
      case (Some st)
      show ?thesis
      proof (cases st)
        case StopIteration
        with Some F s show ?thesis by (auto simp: drain_Stop)
      next
        case (Raise e)
        with Some F s show ?thesis by (auto simp: drain_Raise)
      next
        case (Yield x s')
        let ?h = "h\<lparr>h_iterators := (h_iterators h)[i := s']\<rparr>"
        from Some Yield F obtain r' where
          sub: "py_list' nxt s' = Some r'" and r: "r = cons_result x r'"
          by (auto simp: bind_eq_Some_conv)
        from IH [OF sub, rule_format, of i ?h] i obtain h' where
          "drain nxt i ?h = Some (r', h')" by auto
        with r Some Yield s show ?thesis
          using drain_Yield [of nxt h i x s'] by simp
      qed
    qed
  qed
qed

text \<open>
  Hence a request gives what \<^verbatim>\<open>list\<close> gives on the state that \<^verbatim>\<open>children\<close> makes
  from the printer, whatever iterators the heap holds already, and it leaves the printer
  as it was; so two requests in a row give that result twice.
\<close>

lemma request_elements_eq:
  fixes nxt :: "'s \<Rightarrow> ('a, 's) step option" and h :: "('p, 's) heap"
  assumes "children (h_printer h) = Inr s"
  shows "(py_list nxt s = None \<longrightarrow> request_elements children nxt h = None)
       \<and> (\<forall>r. py_list nxt s = Some r \<longrightarrow>
            (\<exists>h1. request_elements children nxt h = Some (r, h1) \<and> h_printer h1 = h_printer h))"
proof -
  let ?h0 = "h\<lparr>h_iterators := h_iterators h @ [s]\<rparr>"
  have req: "request_elements children nxt h = drain nxt (length (h_iterators h)) ?h0"
    using assms by (simp add: request_elements_def new_iterator_def)
  have at: "h_iterators ?h0 ! length (h_iterators h) = s"
    "length (h_iterators h) < length (h_iterators ?h0)" by simp_all
  show ?thesis
  proof (intro conjI allI impI)
    assume none: "py_list nxt s = None"
    show "request_elements children nxt h = None"
    proof (cases "drain nxt (length (h_iterators h)) ?h0")
      case None
      with req show ?thesis by simp
    next
      case (Some y)
      obtain r h' where y: "y = (r, h')" by (cases y)
      from drain_result(3) [OF Some [unfolded y] at(2)] none show ?thesis by simp
    qed
  next
    fix r assume run: "py_list nxt s = Some r"
    from py_list_drain [OF run, rule_format, of "length (h_iterators h)" ?h0] at
    obtain h1 where d: "drain nxt (length (h_iterators h)) ?h0 = Some (r, h1)" by auto
    from drain_result(1) [OF d at(2)] have "h_printer h1 = h_printer h" by simp
    with d req show "\<exists>h1. request_elements children nxt h = Some (r, h1)
                        \<and> h_printer h1 = h_printer h" by simp
  qed
qed

lemma request_twice_eq:
  fixes nxt :: "'s \<Rightarrow> ('a, 's) step option" and h :: "('p, 's) heap"
  shows "request_twice children nxt h =
     (case children (h_printer h) of
        Inl e \<Rightarrow> Some (Inl e, Inl e)
      | Inr s \<Rightarrow> (case py_list nxt s of None \<Rightarrow> None | Some r \<Rightarrow> Some (r, r)))"
proof (cases "children (h_printer h)")
  case (Inl e)
  then show ?thesis by (simp add: request_twice_def request_elements_def)
next
  case (Inr s)
  show ?thesis
  proof (cases "py_list nxt s")
    case None
    with request_elements_eq [of children h s nxt] Inr
    have "request_elements children nxt h = None"
      by simp
    with Inr None show ?thesis by (simp add: request_twice_def)
  next
    case (Some r)
    with request_elements_eq [of children h s nxt] Inr obtain h1 where
      first: "request_elements children nxt h = Some (r, h1)" and p: "h_printer h1 = h_printer h"
      by auto
    from Inr p have "children (h_printer h1) = Inr s" by simp
    with request_elements_eq [of children h1 s nxt] Some obtain h2 where
      "request_elements children nxt h1 = Some (r, h2)" by auto
    with first Inr Some show ?thesis by (simp add: request_twice_def)
  qed
qed

lemma request_twice_run:
  fixes nxt :: "'s \<Rightarrow> ('a, 's) step option" and h :: "('p, 's) heap"
  assumes "children (h_printer h) = Inr s" and "py_list nxt s = Some r"
  shows "request_twice children nxt h = Some (r, r)"
  using assms by (simp add: request_twice_eq)

text \<open>The iterator of a list of the interpreter delivers the list.\<close>

lemma list_iter_list: "py_list (\<lambda>s. Some (list_iter_next s)) xs = Some (Inr xs)"
proof (induction xs)
  case Nil
  show ?case by (rule py_list_Stop) (simp add: list_iter_next_def)
next
  case (Cons x xs)
  have "py_list (\<lambda>s. Some (list_iter_next s)) (x # xs) =
        Option.bind (py_list (\<lambda>s. Some (list_iter_next s)) xs) (\<lambda>r. Some (cons_result x r))"
    by (rule py_list_Yield) (simp add: list_iter_next_def)
  with Cons show ?case by (simp add: cons_result_def)
qed

end
